theory Spec2Isabelle
  imports Main "HOL-Library.Word"
begin

section \<open>Storage accessors: the lookup indexes (package rawdb)\<close>

subsection \<open>Bytes, hashes and the key-value store\<close>

text \<open>
  \<open>common.Hash\<close> is a \<open>[32]byte\<close>: a 256-bit word, read big-endian; \<open>common.Hash{}\<close>
  is the word 0. A \<open>uint64\<close> is a 64-bit word.
\<close>

type_synonym byte = "8 word"
type_synonym hash = "256 word"
type_synonym uint64 = "64 word"

text \<open>The big-endian digits of a number in base 256, without leading zeros.\<close>

function be_bytes :: "nat \<Rightarrow> byte list" where
  "be_bytes n = (if n = 0 then [] else be_bytes (n div 256) @ [of_nat (n mod 256)])"
  by pat_completeness auto
termination
  by (relation "measure (\<lambda>n. n)") auto

declare be_bytes.simps [simp del]

definition be_nat :: "byte list \<Rightarrow> nat" where
  "be_nat bs = foldl (\<lambda>a b. 256 * a + unat b) 0 bs"

text \<open>\<open>Hash.Bytes()\<close>: the 32 bytes of a hash; and the hash a 32-byte string stands for.\<close>

definition hash_Bytes :: "hash \<Rightarrow> byte list" where
  "hash_Bytes h = (let ds = be_bytes (unat h) in replicate (32 - length ds) 0 @ ds)"

definition BytesToHash :: "byte list \<Rightarrow> hash" where
  "BytesToHash bs = of_nat (be_nat bs)"

text \<open>
  Modelled from the spec: the key schema (\<open>txLookupKey\<close>, \<open>invalidExitReceiptsLookupKey\<close>
  of schema.go) is not part of the sources. The spec names the keys \<open>txLookup(hash)\<close> and
  \<open>invalidExitReceiptsLookup(fork, blockNumber, blockHash)\<close>; they are kept symbolic, one
  constructor for each key family, so that different arguments give different keys.
\<close>

datatype dbkey =
    txLookupKey hash
  | invalidExitReceiptsLookupKey uint64 uint64 hash

text \<open>
  The database behind \<open>DatabaseReader\<close>, \<open>DatabaseWriter\<close> and \<open>DatabaseDeleter\<close>: a
  map from keys to byte strings whose \<open>Put\<close> and \<open>Delete\<close> succeed. \<open>Get\<close> of a
  missing key returns no data (and an error that every caller here drops).
\<close>

type_synonym database = "dbkey \<rightharpoonup> byte list"

definition db_Get :: "database \<Rightarrow> dbkey \<Rightarrow> byte list" where
  "db_Get db k = (case db k of None \<Rightarrow> [] | Some data \<Rightarrow> data)"

definition db_Put :: "database \<Rightarrow> dbkey \<Rightarrow> byte list \<Rightarrow> database" where
  "db_Put db k data = db(k \<mapsto> data)"

definition db_Delete :: "database \<Rightarrow> dbkey \<Rightarrow> database" where
  "db_Delete db k = db(k := None)"

subsection \<open>The canonical encoding\<close>

text \<open>
  Modelled from the spec: the package rlp is not part of the sources. The spec asks for
  "a deterministic recursive-length encoding of their field tuple in the order declared":
  a byte string of at most 55 bytes is prefixed by \<open>0x80 + length\<close> (a single byte
  below \<open>0x80\<close> stands for itself), a list of at most 55 payload bytes by
  \<open>0xc0 + length\<close>, longer ones by \<open>0xb7\<close> or \<open>0xf7\<close> plus the length of the length,
  followed by the big-endian length. A \<open>uint64\<close> is the string of its big-endian digits,
  a hash the string of its 32 bytes, a struct the list of its fields, a slice the list of
  its elements.
\<close>

definition rlp_header :: "nat \<Rightarrow> nat \<Rightarrow> byte list" where
  "rlp_header base len =
     (if len \<le> 55 then [of_nat (base + len)]
      else of_nat (base + 55 + length (be_bytes len)) # be_bytes len)"

definition rlp_string :: "byte list \<Rightarrow> byte list" where
  "rlp_string bs =
     (if length bs = 1 \<and> unat (hd bs) < 128 then bs else rlp_header 128 (length bs) @ bs)"

definition rlp_list :: "byte list \<Rightarrow> byte list" where
  "rlp_list payload = rlp_header 192 (length payload) @ payload"

definition rlp_uint64 :: "uint64 \<Rightarrow> byte list" where
  "rlp_uint64 n = rlp_string (be_bytes (unat n))"

definition rlp_hash :: "hash \<Rightarrow> byte list" where
  "rlp_hash h = rlp_string (hash_Bytes h)"

text \<open>
  Decoding splits the first item off a byte string: its kind, its content and the bytes
  after it; \<open>None\<close> where the input ends before the item does. The decoders accept every
  encoding that the encoders produce; they do not refuse the other spellings of a value
  (a length with leading zeros, say), which no entry written by this package has.
\<close>

datatype rlp_kind = String | List

definition rlp_take :: "rlp_kind \<Rightarrow> nat \<Rightarrow> byte list \<Rightarrow> (rlp_kind \<times> byte list \<times> byte list) option" where
  "rlp_take k len bs = (if length bs < len then None else Some (k, take len bs, drop len bs))"

definition rlp_take_long :: "rlp_kind \<Rightarrow> nat \<Rightarrow> byte list \<Rightarrow> (rlp_kind \<times> byte list \<times> byte list) option" where
  "rlp_take_long k lenlen bs =
     (if length bs < lenlen then None
      else rlp_take k (be_nat (take lenlen bs)) (drop lenlen bs))"

definition rlp_split :: "byte list \<Rightarrow> (rlp_kind \<times> byte list \<times> byte list) option" where
  "rlp_split bs =
     (case bs of
        [] \<Rightarrow> None
      | b # rest \<Rightarrow>
          (let n = unat b in
           if n < 128 then Some (String, [b], rest)
           else if n < 184 then rlp_take String (n - 128) rest
           else if n < 192 then rlp_take_long String (n - 183) rest
           else if n < 248 then rlp_take List (n - 192) rest
           else rlp_take_long List (n - 247) rest))"

definition decode_uint64 :: "byte list \<Rightarrow> (uint64 \<times> byte list) option" where
  "decode_uint64 bs =
     (case rlp_split bs of
        Some (String, content, rest) \<Rightarrow>
          (if length content \<le> 8 then Some (of_nat (be_nat content), rest) else None)
      | _ \<Rightarrow> None)"

definition decode_hash :: "byte list \<Rightarrow> (hash \<times> byte list) option" where
  "decode_hash bs =
     (case rlp_split bs of
        Some (String, content, rest) \<Rightarrow>
          (if length content = 32 then Some (BytesToHash content, rest) else None)
      | _ \<Rightarrow> None)"

lemma rlp_split_shorter:
  "rlp_split bs = Some (k, content, rest) \<Longrightarrow> length rest < length bs"
  by (cases bs)
     (auto simp: rlp_split_def rlp_take_def rlp_take_long_def Let_def split: if_splits)

lemma decode_uint64_shorter:
  "decode_uint64 bs = Some (n, rest) \<Longrightarrow> length rest < length bs"
  by (auto simp: decode_uint64_def split: option.splits rlp_kind.splits if_splits
           dest: rlp_split_shorter)

function decode_uint64s :: "byte list \<Rightarrow> uint64 list option" where
  "decode_uint64s bs =
     (if bs = [] then Some []
      else (case decode_uint64 bs of
              None \<Rightarrow> None
            | Some (n, rest) \<Rightarrow>
                (case decode_uint64s rest of None \<Rightarrow> None | Some ns \<Rightarrow> Some (n # ns))))"
  by pat_completeness auto
termination
  by (relation "measure length") (auto dest: decode_uint64_shorter)

declare decode_uint64s.simps [simp del]

subsection \<open>The transaction lookup index\<close>

record TxLookupEntry =
  BlockHash :: hash
  BlockIndex :: uint64
  Index :: uint64

definition EncodeToBytes_TxLookupEntry :: "TxLookupEntry \<Rightarrow> byte list" where
  "EncodeToBytes_TxLookupEntry entry =
     rlp_list (rlp_hash (BlockHash entry) @ rlp_uint64 (BlockIndex entry) @ rlp_uint64 (Index entry))"

definition DecodeBytes_TxLookupEntry :: "byte list \<Rightarrow> TxLookupEntry option" where
  "DecodeBytes_TxLookupEntry data =
     (case rlp_split data of
        Some (List, payload, []) \<Rightarrow>
          (case decode_hash payload of
             None \<Rightarrow> None
           | Some (h, r1) \<Rightarrow>
               (case decode_uint64 r1 of
                  None \<Rightarrow> None
                | Some (n, r2) \<Rightarrow>
                    (case decode_uint64 r2 of
                       Some (i, []) \<Rightarrow> Some \<lparr>BlockHash = h, BlockIndex = n, Index = i\<rparr>
                     | _ \<Rightarrow> None)))
      | _ \<Rightarrow> None)"

text \<open>
  What the accessors read of a \<open>types.Block\<close>: \<open>Hash()\<close>, the header's number
  (\<open>NumberU64()\<close> is its low 64 bits) and \<open>Transactions()\<close>, each transaction kept as its
  \<open>Hash()\<close>, the one thing read of it.
\<close>

record Block =
  Hash :: hash
  Number :: nat
  Transactions :: "hash list"
  IsRequest :: bool
  Root :: hash
  TxHash :: hash
  ReceiptHash :: hash

definition NumberU64 :: "Block \<Rightarrow> uint64" where
  "NumberU64 block = of_nat (Number block)"

definition ReadTxLookupEntry :: "database \<Rightarrow> hash \<Rightarrow> hash \<times> uint64 \<times> uint64" where
  "ReadTxLookupEntry db hash =
     (let data = db_Get db (txLookupKey hash)
      in if length data = 0 then (0, 0, 0)
         else (case DecodeBytes_TxLookupEntry data of
                 None \<Rightarrow> (0, 0, 0)
               | Some entry \<Rightarrow> (BlockHash entry, BlockIndex entry, Index entry)))"

text \<open>The loop of \<open>WriteTxLookupEntries\<close> from position \<open>i\<close> on; \<open>uint64(i)\<close> is \<open>of_nat i\<close>.\<close>

fun WriteTxLookupEntries_from :: "database \<Rightarrow> Block \<Rightarrow> nat \<Rightarrow> hash list \<Rightarrow> database" where
  "WriteTxLookupEntries_from db block i [] = db"
| "WriteTxLookupEntries_from db block i (tx # txs) =
     (let entry = \<lparr>BlockHash = Hash block, BlockIndex = NumberU64 block, Index = of_nat i\<rparr>;
          data = EncodeToBytes_TxLookupEntry entry
      in WriteTxLookupEntries_from (db_Put db (txLookupKey tx) data) block (i + 1) txs)"

definition WriteTxLookupEntries :: "database \<Rightarrow> Block \<Rightarrow> database" where
  "WriteTxLookupEntries db block = WriteTxLookupEntries_from db block 0 (Transactions block)"

definition DeleteTxLookupEntry :: "database \<Rightarrow> hash \<Rightarrow> database" where
  "DeleteTxLookupEntry db hash = db_Delete db (txLookupKey hash)"

subsection \<open>The invalid-exit receipts index\<close>

record InvalidExitReceiptsLookupEntry =
  ier_BlockHash :: hash
  ier_BlockIndex :: uint64
  ier_Indices :: "uint64 list"

definition EncodeToBytes_InvalidExitReceiptsLookupEntry ::
  "InvalidExitReceiptsLookupEntry \<Rightarrow> byte list" where
  "EncodeToBytes_InvalidExitReceiptsLookupEntry entry =
     rlp_list (rlp_hash (ier_BlockHash entry) @ rlp_uint64 (ier_BlockIndex entry)
               @ rlp_list (concat (map rlp_uint64 (ier_Indices entry))))"

definition DecodeBytes_InvalidExitReceiptsLookupEntry ::
  "byte list \<Rightarrow> InvalidExitReceiptsLookupEntry option" where
  "DecodeBytes_InvalidExitReceiptsLookupEntry data =
     (case rlp_split data of
        Some (List, payload, []) \<Rightarrow>
          (case decode_hash payload of
             None \<Rightarrow> None
           | Some (h, r1) \<Rightarrow>
               (case decode_uint64 r1 of
                  None \<Rightarrow> None
                | Some (n, r2) \<Rightarrow>
                    (case rlp_split r2 of
                       Some (List, items, []) \<Rightarrow>
                         (case decode_uint64s items of
                            None \<Rightarrow> None
                          | Some ns \<Rightarrow>
                              Some \<lparr>ier_BlockHash = h, ier_BlockIndex = n, ier_Indices = ns\<rparr>)
                     | _ \<Rightarrow> None)))
      | _ \<Rightarrow> None)"

text \<open>
  What this development reads of a \<open>types.Receipt\<close>: its status (\<open>ReceiptStatusFailed\<close>
  is 0) and the bytes that \<open>GetRlp()\<close> returns.
\<close>

record Receipt =
  Status :: uint64
  GetRlp :: "byte list"

definition ReceiptStatusFailed :: uint64 where
  "ReceiptStatusFailed = 0"

datatype panic = IndexOutOfRange | NilDereference | CapOutOfRange | NonPositiveInterval

definition ReadInvalidExitReceiptsLookupEntry ::
  "database \<Rightarrow> hash \<Rightarrow> uint64 \<Rightarrow> uint64 \<Rightarrow> hash \<times> uint64 \<times> uint64 list" where
  "ReadInvalidExitReceiptsLookupEntry db hash num fork =
     (let data = db_Get db (invalidExitReceiptsLookupKey fork num hash)
      in if length data = 0 then (0, 0, [])
         else (case DecodeBytes_InvalidExitReceiptsLookupEntry data of
                 None \<Rightarrow> (0, 0, [])
               | Some entry \<Rightarrow> (ier_BlockHash entry, ier_BlockIndex entry, ier_Indices entry)))"

definition WriteInvalidExitReceiptsLookupEntry ::
  "database \<Rightarrow> hash \<Rightarrow> uint64 \<Rightarrow> uint64 \<Rightarrow> uint64 list \<Rightarrow> database" where
  "WriteInvalidExitReceiptsLookupEntry db hash num fork indices =
     (let entry = \<lparr>ier_BlockHash = hash, ier_BlockIndex = num, ier_Indices = indices\<rparr>;
          data = EncodeToBytes_InvalidExitReceiptsLookupEntry entry
      in db_Put db (invalidExitReceiptsLookupKey fork num hash) data)"

definition DeleteInvalidExitReceiptsLookupEntry ::
  "database \<Rightarrow> hash \<Rightarrow> uint64 \<Rightarrow> uint64 \<Rightarrow> database" where
  "DeleteInvalidExitReceiptsLookupEntry db hash num fork =
     db_Delete db (invalidExitReceiptsLookupKey fork num hash)"

text \<open>
  The loop of \<open>ReadInvalidExitReceipts\<close>: \<open>receipts[index]\<close> panics when the index is
  not a position of the slice.
\<close>

fun projectReceipts ::
  "Receipt list \<Rightarrow> uint64 list \<Rightarrow> (uint64 \<rightharpoonup> Receipt) \<Rightarrow> panic + (uint64 \<rightharpoonup> Receipt)" where
  "projectReceipts receipts [] invalidExitReceipts = Inr invalidExitReceipts"
| "projectReceipts receipts (index # indices) invalidExitReceipts =
     (if unat index < length receipts
      then projectReceipts receipts indices (invalidExitReceipts(index \<mapsto> receipts ! unat index))
      else Inl IndexOutOfRange)"

text \<open>
  \<open>ReadReceipts\<close> (accessors_chain.go) is not part of the sources: it is a parameter, the
  receipts list it returns for a database, a block hash and a block number. The result of
  \<open>ReadInvalidExitReceipts\<close> is \<open>Inr None\<close> for the nil map.
\<close>

definition ReadInvalidExitReceipts ::
  "(database \<Rightarrow> hash \<Rightarrow> uint64 \<Rightarrow> Receipt list) \<Rightarrow> database \<Rightarrow> hash \<Rightarrow> uint64 \<Rightarrow> uint64
     \<Rightarrow> panic + (uint64 \<rightharpoonup> Receipt) option" where
  "ReadInvalidExitReceipts ReadReceipts db hash num fork =
     (case ReadInvalidExitReceiptsLookupEntry db hash num fork of
        (blockHash, blockNumber, indices) \<Rightarrow>
          if blockHash = 0 then Inr None
          else (let receipts = ReadReceipts db blockHash blockNumber
                in if length receipts = 0 then Inr None
                   else (case projectReceipts receipts indices Map.empty of
                           Inl p \<Rightarrow> Inl p
                         | Inr invalidExitReceipts \<Rightarrow> Inr (Some invalidExitReceipts))))"

text \<open>A nil map reads as the empty map.\<close>

definition entries_of :: "(uint64 \<rightharpoonup> Receipt) option \<Rightarrow> (uint64 \<rightharpoonup> Receipt)" where
  "entries_of r = (case r of None \<Rightarrow> Map.empty | Some m \<Rightarrow> m)"

section \<open>Gas-price adjustment of the Submitter\<close>

text \<open>
  The gas price is a Go \<open>*big.Int\<close>, an unbounded integer: \<open>int\<close>.
  \<open>big.Int.Quo\<close> is the truncated quotient and \<open>big.Int.Div\<close> the Euclidean one
  (the remainder is never negative); the closure \<open>adjust\<close> of \<open>runSubmitter\<close> uses
  \<open>Div\<close> with the constant divisors 4 and 2, so the division by zero, where Go panics,
  is not reachable from it.
\<close>

definition big_Quo :: "int \<Rightarrow> int \<Rightarrow> int" where
  "big_Quo x y = sgn x * sgn y * (\<bar>x\<bar> div \<bar>y\<bar>)"

definition big_Div :: "int \<Rightarrow> int \<Rightarrow> int" where
  "big_Div x y =
     (let q = big_Quo x y; m = x - y * q
      in if m < 0 then (if y < 0 then q + 1 else q - 1) else q)"

definition big_Mul :: "int \<Rightarrow> int \<Rightarrow> int" where
  "big_Mul x y = x * y"

text \<open>
  The new value that \<open>adjust(sufficient)\<close> computes from the current gas price:
  \<^verbatim>\<open>Mul(Div(gasPrice, 4), 3)\<close> when sufficient, \<^verbatim>\<open>Mul(Div(gasPrice, 2), 3)\<close> otherwise.
\<close>

definition adjustPrice :: "bool \<Rightarrow> int \<Rightarrow> int" where
  "adjustPrice sufficient gasPrice =
     (if sufficient then big_Mul (big_Div gasPrice 4) 3
      else big_Mul (big_Div gasPrice 2) 3)"

text \<open>A finite sequence of adjustments, applied from left to right.\<close>

fun adjustAll :: "int \<Rightarrow> bool list \<Rightarrow> int" where
  "adjustAll gasPrice [] = gasPrice"
| "adjustAll gasPrice (sufficient # rest) = adjustAll (adjustPrice sufficient gasPrice) rest"

section \<open>The root chain manager (package pls)\<close>

subsection \<open>Transactions, configuration and the operator state\<close>

type_synonym address = "160 word"
type_synonym error = string

text \<open>
  ABI packing is kept symbolic: \<open>Pack\<close> is the method name with its arguments in order,
  \<open>NoInput\<close> the nil byte slice. (A packing error is only logged by the callers.)
\<close>

datatype abi_arg =
    A_int int
  | A_bool bool
  | A_address address
  | A_hash hash
  | A_bytes "byte list"

datatype calldata = NoInput | Pack string "abi_arg list"

text \<open>\<open>types.NewTransaction(nonce, to, amount, gasLimit, gasPrice, data)\<close>.\<close>

record Transaction =
  tx_nonce :: nat
  tx_to :: address
  tx_amount :: int
  tx_gasLimit :: uint64
  tx_gasPrice :: int
  tx_data :: calldata

definition NewTransaction ::
  "nat \<Rightarrow> address \<Rightarrow> int \<Rightarrow> uint64 \<Rightarrow> int \<Rightarrow> calldata \<Rightarrow> Transaction" where
  "NewTransaction nonce to amount gasLimit gasPrice data =
     \<lparr>tx_nonce = nonce, tx_to = to, tx_amount = amount, tx_gasLimit = gasLimit,
      tx_gasPrice = gasPrice, tx_data = data\<rparr>"

text \<open>
  The constants of package params and the fields of \<open>Config\<close> that the manager reads are
  not part of the sources: they are parameters.
\<close>

record Params =
  SubmitBlockGasLimit :: uint64
  SubmitBlockGasPrice :: int
  RequestTxGasLimit :: uint64
  RequestTxGasPrice :: int

record Config =
  RootChainContract :: address
  PendingInterval :: nat

text \<open>
  Modelled from the spec: \<open>rootchainState\<close> with \<open>getNonce\<close> and \<open>incNonce\<close> is not part
  of the sources. The spec describes the Operator State as a "small record with atomic
  access: currentFork, nonce, gasPrice, costNRB" with the operations \<open>getNonce\<close> and
  \<open>incNonce\<close>: reading the nonce leaves the record as it is, incrementing adds one. The
  fork, the nonce and the cost are natural numbers: no width is given for them, so
  incrementing never wraps around, and the conversions \<open>int64(...)\<close> applied to
  \<open>currentFork\<close> and \<open>costNRB\<close> are \<open>int\<close>.
\<close>

record rootchainState =
  rs_currentFork :: nat
  rs_nonce :: nat
  rs_gasPrice :: int
  rs_costNRB :: nat

definition getNonce :: "rootchainState \<Rightarrow> nat" where
  "getNonce rs = rs_nonce rs"

definition incNonce :: "rootchainState \<Rightarrow> rootchainState" where
  "incNonce rs = rs\<lparr>rs_nonce := rs_nonce rs + 1\<rparr>"

text \<open>
  What a goroutine of the manager does to the world around it, in the order it does it.
  A transaction hash is kept as the signed transaction itself (\<open>None\<close> is the zero hash).
  Signing and sending are external: the wallet, once found, signs, and a failure to send
  is only logged. The lock \<open>rcm.lock\<close> is shared by the goroutines: \<open>Lock\<close> and \<open>Unlock\<close>
  are recorded as effects, and whether the lock is free or held when they are called is
  left to the scheduler.
\<close>

datatype effect =
    MinerStart
  | MinerStop
  | LockAcquire
  | LockRelease
  | SendTransaction Transaction
  | NewTicker nat
  | TickerStop
  | TransactionReceipt "Transaction option"
  | EnqueueReqeustTxs "Transaction list"

fun sentTransactions :: "effect list \<Rightarrow> Transaction list" where
  "sentTransactions [] = []"
| "sentTransactions (SendTransaction tx # effs) = tx # sentTransactions effs"
| "sentTransactions (_ # effs) = sentTransactions effs"

subsection \<open>The Submitter\<close>

text \<open>
  The variables of \<open>runSubmitter\<close> that its closures share: the operator state
  \<open>rcm.state\<close>, the locals \<open>nonce\<close>, \<open>gasPrice\<close>, \<open>funcName\<close> and \<open>txHash\<close>, and the
  effects so far.
\<close>

record Submitter =
  state :: rootchainState
  nonce :: nat
  gasPrice :: int
  funcName :: string
  txHash :: "Transaction option"
  effects :: "effect list"

text \<open>The closure \<open>adjust\<close>: the local gas price and \<open>rcm.state.gasPrice\<close> get the new value.\<close>

definition adjust :: "bool \<Rightarrow> Submitter \<Rightarrow> Submitter" where
  "adjust sufficient s =
     (let new = adjustPrice sufficient (gasPrice s)
      in s\<lparr>gasPrice := new, state := (state s)\<lparr>rs_gasPrice := new\<rparr>\<rparr>)"

text \<open>
  The closure \<open>submit\<close>: the transaction is built from the local \<open>nonce\<close> and \<open>gasPrice\<close>,
  signed and sent; the result is the hash of the signed transaction.
\<close>

definition submitTx :: "Config \<Rightarrow> Params \<Rightarrow> string \<Rightarrow> Block \<Rightarrow> Submitter \<Rightarrow> Transaction" where
  "submitTx config params name block s =
     NewTransaction (nonce s) (RootChainContract config) (int (rs_costNRB (state s)))
       (SubmitBlockGasLimit params) (gasPrice s)
       (Pack name [A_int (int (rs_currentFork (state s))), A_hash (Root block),
                   A_hash (TxHash block), A_hash (ReceiptHash block)])"

definition submit ::
  "Config \<Rightarrow> Params \<Rightarrow> string \<Rightarrow> Block \<Rightarrow> Submitter \<Rightarrow> Transaction option \<times> Submitter" where
  "submit config params name block s =
     (let signedTx = submitTx config params name block s
      in (Some signedTx, s\<lparr>effects := effects s @ [SendTransaction signedTx]\<rparr>))"

text \<open>
  What the two selects receive. The outer select receives a mined-block event, with the
  producer's \<open>minerEnv\<close> as it is then (\<open>ChanClosed\<close> is the nil event), or the quit
  signal. The select of the pending loop receives a tick of the ticker (with the flag
  \<open>ok\<close> of the receive) or a BlockSubmitted event; the outcome of the call
  \<open>TransactionReceipt\<close> made while handling the event comes with it. A mined-block event
  carries what the pending loop that it starts receives, in order.
\<close>

record minerEnv =
  Completed :: bool
  env_IsRequest :: bool

datatype receipt_result = ReceiptError | ReceiptStatus uint64

datatype pending_event = Tick bool | BlockSubmitted receipt_result

datatype mined_event =
    ChanClosed
  | NewMinedBlockEvent Block minerEnv "pending_event list"
  | Quit

text \<open>The case of the pending loop's select for a tick.\<close>

definition onTick :: "Config \<Rightarrow> Params \<Rightarrow> Block \<Rightarrow> bool \<Rightarrow> Submitter \<Rightarrow> Submitter" where
  "onTick config params block ok s =
     (if ok then
        (let s1 = (if nonce s = getNonce (state s) then adjust False s
                   else s\<lparr>nonce := getNonce (state s)\<rparr>);
             (h, s2) = submit config params (funcName s1) block s1
         in s2\<lparr>txHash := h\<rparr>)
      else s)"

text \<open>
  The case for a BlockSubmitted event. Its two \<open>break\<close> statements leave the select, not
  the \<open>for\<close> loop around it.
\<close>

definition onBlockSubmitted :: "receipt_result \<Rightarrow> Submitter \<Rightarrow> Submitter" where
  "onBlockSubmitted r s =
     (let s1 = s\<lparr>effects := effects s @ [TickerStop]\<rparr>;
          s2 = s1\<lparr>state := incNonce (state s1)\<rparr>;
          s3 = s2\<lparr>effects := effects s2 @ [LockRelease, TransactionReceipt (txHash s2)]\<rparr>
      in case r of
           ReceiptError \<Rightarrow> s3
         | ReceiptStatus status \<Rightarrow> adjust True s3)"

text \<open>The pending loop: \<open>for { select { ... } }\<close>, with no statement that leaves it.\<close>

fun pendingLoop :: "Config \<Rightarrow> Params \<Rightarrow> Block \<Rightarrow> Submitter \<Rightarrow> pending_event list \<Rightarrow> Submitter" where
  "pendingLoop config params block s [] = s"
| "pendingLoop config params block s (Tick ok # evs) =
     pendingLoop config params block (onTick config params block ok s) evs"
| "pendingLoop config params block s (BlockSubmitted r # evs) =
     pendingLoop config params block (onBlockSubmitted r s) evs"

text \<open>The case of the outer select for a mined block, up to the pending loop.\<close>

definition onMinedBlock :: "Config \<Rightarrow> Params \<Rightarrow> Block \<Rightarrow> minerEnv \<Rightarrow> Submitter \<Rightarrow> Submitter" where
  "onMinedBlock config params block env s =
     (let s1 = (if Completed env then s\<lparr>effects := effects s @ [MinerStop]\<rparr> else s);
          s2 = s1\<lparr>effects := effects s1 @ [LockAcquire]\<rparr>;
          s3 = s2\<lparr>funcName := (if env_IsRequest env then ''submitORB'' else ''submitNRB'')\<rparr>;
          (h, s4) = submit config params (funcName s3) block s3
      in s4\<lparr>txHash := h\<rparr>)"

text \<open>\<open>time.NewTicker\<close> panics unless the interval is positive.\<close>

definition newPendingTicker :: "Config \<Rightarrow> Submitter \<Rightarrow> panic + Submitter" where
  "newPendingTicker config s =
     (if PendingInterval config = 0 then Inl NonPositiveInterval
      else Inr (s\<lparr>effects := effects s @ [NewTicker (PendingInterval config)]\<rparr>))"

text \<open>
  Where the goroutine is once it has received all the events given: returned, waiting in
  the outer select, waiting in the select of the pending loop, or stopped by a panic.
\<close>

datatype outcome =
    Returned Submitter
  | AtOuterSelect Submitter
  | AtPendingSelect Submitter
  | Panicked Submitter

fun final :: "outcome \<Rightarrow> Submitter" where
  "final (Returned s) = s"
| "final (AtOuterSelect s) = s"
| "final (AtPendingSelect s) = s"
| "final (Panicked s) = s"

text \<open>
  The outer loop. Its test \<open>err != nil\<close> reads the error of the wallet lookup, which is nil
  once the loop is reached. The pending loop never ends, so what follows a mined block in
  the list is never received.
\<close>

fun outerLoop :: "Config \<Rightarrow> Params \<Rightarrow> Submitter \<Rightarrow> mined_event list \<Rightarrow> outcome" where
  "outerLoop config params s [] = AtOuterSelect s"
| "outerLoop config params s (ChanClosed # evs) = Returned s"
| "outerLoop config params s (Quit # evs) = Returned s"
| "outerLoop config params s (NewMinedBlockEvent block env pending # evs) =
     (let s1 = onMinedBlock config params block env s
      in case newPendingTicker config s1 of
           Inl p \<Rightarrow> Panicked s1
         | Inr s2 \<Rightarrow> AtPendingSelect (pendingLoop config params block s2 pending))"

text \<open>
  \<open>runSubmitter\<close>: without the operator's wallet it returns at once; otherwise the locals
  \<open>nonce\<close> and \<open>gasPrice\<close> start from the operator state.
\<close>

definition initSubmitter :: "rootchainState \<Rightarrow> Submitter" where
  "initSubmitter rs =
     \<lparr>state = rs, nonce = getNonce rs, gasPrice = rs_gasPrice rs, funcName = [],
      txHash = None, effects = []\<rparr>"

definition runSubmitter ::
  "Config \<Rightarrow> Params \<Rightarrow> bool \<Rightarrow> rootchainState \<Rightarrow> mined_event list \<Rightarrow> outcome" where
  "runSubmitter config params walletFound rs evs =
     (if walletFound then outerLoop config params (initSubmitter rs) evs
      else Returned (initSubmitter rs))"

text \<open>
  The number of BlockSubmitted events that the Submitter receives: those of the pending
  loop of the first mined block, provided the wallet is found and the ticker starts.
\<close>

fun submittedIn :: "pending_event list \<Rightarrow> nat" where
  "submittedIn [] = 0"
| "submittedIn (Tick ok # evs) = submittedIn evs"
| "submittedIn (BlockSubmitted r # evs) = Suc (submittedIn evs)"

fun receivedBlockSubmitted :: "Config \<Rightarrow> bool \<Rightarrow> mined_event list \<Rightarrow> nat" where
  "receivedBlockSubmitted config walletFound (NewMinedBlockEvent block env pending # evs) =
     (if walletFound \<and> 0 < PendingInterval config then submittedIn pending else 0)"
| "receivedBlockSubmitted config walletFound evs = 0"

subsection \<open>The Detector and the handler of BlockFinalized\<close>

text \<open>
  \<open>big.Int.Uint64()\<close>: the low 64 bits of the absolute value (the value itself when it
  fits).
\<close>

definition big_Uint64 :: "int \<Rightarrow> uint64" where
  "big_Uint64 x = of_nat (nat \<bar>x\<bar>)"

record invalidExit =
  ie_forkNumber :: int
  ie_blockNumber :: int
  ie_receipt :: Receipt
  ie_index :: int
  ie_proof :: "hash list"

text \<open>
  The fields of the manager that the two goroutines share: the operator state and the
  invalid exits, \<open>fork => block number => invalidExits\<close>.
\<close>

record RootChainManager =
  rcm_state :: rootchainState
  invalidExits :: "uint64 \<rightharpoonup> (uint64 \<rightharpoonup> invalidExit list)"

text \<open>
  \<open>rcm.invalidExits[fork][blockNumber]\<close>: a missing fork reads as the nil map, a missing
  block number as the nil slice.
\<close>

definition invalidExitsAt :: "RootChainManager \<Rightarrow> uint64 \<Rightarrow> uint64 \<Rightarrow> invalidExit list" where
  "invalidExitsAt rcm fork num =
     (case invalidExits rcm fork of
        None \<Rightarrow> []
      | Some blocks \<Rightarrow> (case blocks num of None \<Rightarrow> [] | Some exits \<Rightarrow> exits))"

text \<open>
  The loop of the Detector over the receipts of a mined block, from position \<open>i\<close> on.
  \<open>types.GetMerkleProof\<close> is not part of the sources: it is a parameter.
\<close>

fun detectFrom ::
  "(Receipt list \<Rightarrow> nat \<Rightarrow> hash list) \<Rightarrow> int \<Rightarrow> int \<Rightarrow> Receipt list \<Rightarrow> nat \<Rightarrow> Receipt list
     \<Rightarrow> invalidExit list \<Rightarrow> invalidExit list" where
  "detectFrom GetMerkleProof fork num receipts i [] invalidExitsList = invalidExitsList"
| "detectFrom GetMerkleProof fork num receipts i (r # rs) invalidExitsList =
     detectFrom GetMerkleProof fork num receipts (i + 1) rs
       (if Status r = ReceiptStatusFailed
        then invalidExitsList @
               [\<lparr>ie_forkNumber = fork, ie_blockNumber = num, ie_receipt = r, ie_index = int i,
                 ie_proof = GetMerkleProof receipts i\<rparr>]
        else invalidExitsList)"

text \<open>
  One mined-block event of \<open>runDetector\<close>: in a request epoch the entry of the current
  fork and the block's number is replaced by the invalid exits found in the block's
  receipts. The current fork is the answer of the root chain; without one (the error is
  only logged) \<open>forkNumber.Uint64()\<close> dereferences nil, as \<open>ev.Data\<close> does for the nil event
  of a closed subscription (\<open>None\<close>).
\<close>

definition onMinedBlockDetector ::
  "(Receipt list \<Rightarrow> nat \<Rightarrow> hash list) \<Rightarrow> bool \<Rightarrow> error + int \<Rightarrow> Block option \<Rightarrow> Receipt list
     \<Rightarrow> RootChainManager \<Rightarrow> panic + RootChainManager" where
  "onMinedBlockDetector GetMerkleProof isRequest currentFork ev receipts rcm =
     (if isRequest then
        (case currentFork of
           Inl err \<Rightarrow> Inl NilDereference
         | Inr fork \<Rightarrow>
             (case ev of
                None \<Rightarrow> Inl NilDereference
              | Some block \<Rightarrow>
                  (let blocks = (case invalidExits rcm (big_Uint64 fork) of
                                   None \<Rightarrow> Map.empty | Some m \<Rightarrow> m);
                       invalidExitsList =
                         detectFrom GetMerkleProof fork (int (Number block)) receipts 0 receipts []
                   in Inr (rcm\<lparr>invalidExits := (invalidExits rcm)
                              (big_Uint64 fork \<mapsto>
                                 blocks(big_Uint64 (int (Number block)) \<mapsto> invalidExitsList))\<rparr>))))
      else Inr rcm)"

text \<open>The BlockFinalized event of the root chain contract.\<close>

record BlockFinalized =
  ForkNumber :: int
  BlockNumber :: int

text \<open>The inner loop of the handler: the bytes of the proof's hashes, one after the other.\<close>

fun appendProofs :: "hash list \<Rightarrow> byte list \<Rightarrow> byte list" where
  "appendProofs [] proofs = proofs"
| "appendProofs (h # hs) proofs = appendProofs hs (proofs @ hash_Bytes h)"

text \<open>The challenge transaction built for one invalid exit.\<close>

definition challengeTx ::
  "Config \<Rightarrow> Params \<Rightarrow> BlockFinalized \<Rightarrow> RootChainManager \<Rightarrow> invalidExit \<Rightarrow> Transaction" where
  "challengeTx config params e rcm ie =
     (let proofs = appendProofs (ie_proof ie) [];
          input = Pack ''challengeExit''
                    [A_int (ForkNumber e), A_int (BlockNumber e), A_int (ie_index ie),
                     A_bytes (GetRlp (ie_receipt ie)), A_bytes proofs];
          Nonce = getNonce (rcm_state rcm)
      in NewTransaction Nonce (RootChainContract config) 0 (SubmitBlockGasLimit params)
           (SubmitBlockGasPrice params) input)"

text \<open>
  The loop over the invalid exits: each iteration reads the nonce of the operator state,
  builds, signs and sends the challenge; nothing in it writes to the manager.
\<close>

fun challengeLoop ::
  "Config \<Rightarrow> Params \<Rightarrow> BlockFinalized \<Rightarrow> RootChainManager \<Rightarrow> invalidExit list \<Rightarrow> effect list
     \<Rightarrow> RootChainManager \<times> effect list" where
  "challengeLoop config params e rcm [] effs = (rcm, effs)"
| "challengeLoop config params e rcm (ie # ies) effs =
     challengeLoop config params e rcm ies
       (effs @ [SendTransaction (challengeTx config params e rcm ie)])"

text \<open>How a handler ends.\<close>

datatype exit = ReturnsNil | ReturnsErr error | Panics panic | Blocks

text \<open>
  \<open>handleBlockFinalzied\<close>. \<open>GetBlock\<close> is the answer of the root chain contract for the
  event's fork and block number, read for its field \<open>IsRequest\<close>. Without the operator's
  wallet (the error is only logged) the first \<open>w.SignTx\<close> dereferences nil. The result is
  the manager afterwards, the effects and how the handler ends.
\<close>

definition handleBlockFinalzied ::
  "Config \<Rightarrow> Params \<Rightarrow> bool \<Rightarrow> (int \<Rightarrow> int \<Rightarrow> error + bool) \<Rightarrow> RootChainManager \<Rightarrow> BlockFinalized
     \<Rightarrow> RootChainManager \<times> effect list \<times> exit" where
  "handleBlockFinalzied config params walletFound GetBlock rcm e =
     (case GetBlock (ForkNumber e) (BlockNumber e) of
        Inl err \<Rightarrow> (rcm, [LockAcquire, LockRelease], ReturnsErr err)
      | Inr isRequest \<Rightarrow>
          if isRequest then
            (let exits = invalidExitsAt rcm (big_Uint64 (ForkNumber e)) (big_Uint64 (BlockNumber e))
             in if exits \<noteq> [] \<and> \<not> walletFound
                then (rcm, [LockAcquire, LockRelease], Panics NilDereference)
                else (case challengeLoop config params e rcm exits [LockAcquire] of
                        (rcm', effs) \<Rightarrow> (rcm', effs @ [LockRelease], ReturnsNil)))
          else (rcm, [LockAcquire, LockRelease], ReturnsNil))"

subsection \<open>The handler of EpochPrepared\<close>

text \<open>
  The event, and what the root chain contract answers to the read calls of the handler.
  The Go bindings of the contract and \<open>PlasmaEpoch\<close> are not part of the sources. The
  identifiers they hold are machine integers (the handler converts them with
  \<open>int64(...)\<close> and counts with \<open>requestId += 1\<close>): they are taken as \<open>uint64\<close>, the
  unsigned identifiers of the contract, so that counting wraps around after \<open>2^64 - 1\<close>
  and \<open>int64(x)\<close> is the two's complement reading of \<open>x\<close>. The contract is a record of
  functions of the \<open>*big.Int\<close> arguments of the calls (the answer of
  \<open>RequestableContracts\<close> is the zero address where the call fails, since its error is
  dropped).
\<close>

record EpochPrepared =
  EpochNumber :: int
  StartBlockNumber :: int
  EndBlockNumber :: int
  ep_IsRequest :: bool
  EpochIsEmpty :: bool

record PlasmaEpoch =
  FirstRequestBlockId :: uint64

record ORB =
  RequestStart :: uint64
  RequestEnd :: uint64

record ERO =
  IsTransfer :: bool
  IsExit :: bool
  Requestor :: address
  To :: address
  Value :: int
  TrieKey :: hash
  TrieValue :: hash

record rootchainContract =
  GetEpoch :: "int \<Rightarrow> int \<Rightarrow> error + PlasmaEpoch"
  ORBs :: "int \<Rightarrow> error + ORB"
  EROs :: "int \<Rightarrow> error + ERO"
  RequestableContracts :: "address \<Rightarrow> address"

definition to_int64 :: "uint64 \<Rightarrow> int" where
  "to_int64 x = sint x"

text \<open>
  \<open>make\<close> panics when the capacity asked for is more than the runtime can address for
  the element type. The two limits, for a \<open>types.Transactions\<close> and for the slice
  \<open>bodies\<close> of them, are parameters. (That the allocation itself may fail is not
  modelled.)
\<close>

record makeLimits =
  maxTransactions :: nat
  maxBodies :: nat

text \<open>
  The request transaction materialized for one ERO; \<open>requestId\<close> is the request id as the
  \<open>*big.Int\<close> that the handler makes of it, \<open>big.NewInt(int64(requestId))\<close>.
\<close>

definition requestTx :: "rootchainContract \<Rightarrow> Params \<Rightarrow> int \<Rightarrow> ERO \<Rightarrow> Transaction" where
  "requestTx rc params requestId request =
     (let (to, input) =
            (if IsTransfer request then (Requestor request, NoInput)
             else (RequestableContracts rc (To request),
                   Pack ''applyRequestInChildChain''
                     [A_bool (IsExit request), A_int requestId,
                      A_address (Requestor request), A_hash (TrieKey request),
                      A_hash (TrieValue request)]))
      in NewTransaction 0 to (Value request) (RequestTxGasLimit params)
           (RequestTxGasPrice params) input)"

text \<open>
  The loop over the request ids of one ORB. It returns the error of a failed call; with
  \<open>requestEnd\<close> at \<open>2^64 - 1\<close> its test never fails and, as long as the calls answer, it
  never ends: \<open>None\<close>.
\<close>

partial_function (option) fetchRequests ::
  "rootchainContract \<Rightarrow> Params \<Rightarrow> uint64 \<Rightarrow> uint64 \<Rightarrow> Transaction list
     \<Rightarrow> (exit + Transaction list) option" where
  "fetchRequests rc params requestId requestEnd body =
     (if requestId \<le> requestEnd then
        (case EROs rc (to_int64 requestId) of
           Inl err \<Rightarrow> Some (Inl (ReturnsErr err))
         | Inr request \<Rightarrow>
             fetchRequests rc params (requestId + 1) requestEnd
               (body @ [requestTx rc params (to_int64 requestId) request]))
      else Some (Inr body))"

declare fetchRequests.simps [code]

text \<open>
  The loop over the block numbers of the epoch, which are \<open>*big.Int\<close>. The capacity of
  the batch of one ORB is \<open>numRequests\<close>, computed in \<open>uint64\<close>.
\<close>

function fetchORBs ::
  "makeLimits \<Rightarrow> rootchainContract \<Rightarrow> Params \<Rightarrow> int \<Rightarrow> int \<Rightarrow> int \<Rightarrow> Transaction list list
     \<Rightarrow> (exit + Transaction list list) option" where
  "fetchORBs limits rc params blockNumber endBlockNumber requestBlockId bodies =
     (if blockNumber \<le> endBlockNumber then
        (case ORBs rc requestBlockId of
           Inl err \<Rightarrow> Some (Inl (ReturnsErr err))
         | Inr orb \<Rightarrow>
             (let numRequests = RequestEnd orb - RequestStart orb + 1
              in if maxTransactions limits < unat numRequests
                 then Some (Inl (Panics CapOutOfRange))
                 else (case fetchRequests rc params (RequestStart orb) (RequestEnd orb) [] of
                         None \<Rightarrow> None
                       | Some (Inl x) \<Rightarrow> Some (Inl x)
                       | Some (Inr body) \<Rightarrow>
                           fetchORBs limits rc params (blockNumber + 1) endBlockNumber
                             (requestBlockId + 1) (bodies @ [body]))))
      else Some (Inr bodies))"
  by pat_completeness auto
termination
  by (relation "measure (\<lambda>(limits, rc, params, blockNumber, endBlockNumber, requestBlockId, bodies).
                  nat (endBlockNumber + 1 - blockNumber))") auto

declare fetchORBs.simps [simp del]

text \<open>
  The loop that enqueues one batch and waits for the next mined block, which must be a
  request block. \<open>txPool.EnqueueReqeustTxs\<close> is a parameter: the error it returns for a
  batch, if any; a batch counts as enqueued when it returns none. \<open>events\<close> is what the
  subscription delivers: the mined blocks, or \<open>None\<close> for the nil event of a closed
  subscription, whose \<open>Data\<close> cannot be read; with nothing left the handler waits.
\<close>

fun enqueueLoop ::
  "(Transaction list \<Rightarrow> error option) \<Rightarrow> nat \<Rightarrow> Transaction list list \<Rightarrow> nat
     \<Rightarrow> Block option list \<Rightarrow> effect list \<Rightarrow> effect list \<times> exit" where
  "enqueueLoop EnqueueReqeustTxs' numORBs bodies numMinedORBs events effs =
     (if numMinedORBs < numORBs then
        (if numMinedORBs < length bodies then
           (case EnqueueReqeustTxs' (bodies ! numMinedORBs) of
              Some err \<Rightarrow> (effs, ReturnsErr err)
            | None \<Rightarrow>
                (case events of
                   [] \<Rightarrow> (effs @ [EnqueueReqeustTxs (bodies ! numMinedORBs)], Blocks)
                 | None # events' \<Rightarrow>
                     (effs @ [EnqueueReqeustTxs (bodies ! numMinedORBs)], Panics NilDereference)
                 | Some block # events' \<Rightarrow>
                     if \<not> IsRequest block
                     then (effs @ [EnqueueReqeustTxs (bodies ! numMinedORBs)],
                           ReturnsErr ''Invalid request block type.'')
                     else enqueueLoop EnqueueReqeustTxs' numORBs bodies (numMinedORBs + 1) events'
                            (effs @ [EnqueueReqeustTxs (bodies ! numMinedORBs)])))
         else (effs, Panics IndexOutOfRange))
      else (effs, ReturnsNil))"

declare enqueueLoop.simps [simp del]

text \<open>
  \<open>handleEpochPrepared\<close>: the effects and how the handler ends, or \<open>None\<close> where it
  never ends. The capacity of \<open>bodies\<close> is \<open>numORBs.Uint64()\<close>. The lock is released by
  the deferred \<open>Unlock\<close>, so not while the handler waits.
\<close>

definition handleEpochPrepared ::
  "makeLimits \<Rightarrow> rootchainContract \<Rightarrow> Params \<Rightarrow> (Transaction list \<Rightarrow> error option)
     \<Rightarrow> RootChainManager \<Rightarrow> EpochPrepared \<Rightarrow> Block option list \<Rightarrow> (effect list \<times> exit) option" where
  "handleEpochPrepared limits rc params EnqueueReqeustTxs' rcm e events =
     (if EpochIsEmpty e then Some ([LockAcquire, LockRelease], ReturnsNil)
      else if ep_IsRequest e \<and> \<not> EpochIsEmpty e then
        (let numORBs = EndBlockNumber e - StartBlockNumber e + 1;
             currentFork = int (rs_currentFork (rcm_state rcm))
         in if maxBodies limits < unat (big_Uint64 numORBs)
            then Some ([LockAcquire, MinerStart, LockRelease], Panics CapOutOfRange)
            else
              (case GetEpoch rc currentFork (EpochNumber e) of
                 Inl err \<Rightarrow> Some ([LockAcquire, MinerStart, LockRelease], ReturnsErr err)
               | Inr epoch \<Rightarrow>
                   (case fetchORBs limits rc params (StartBlockNumber e) (EndBlockNumber e)
                           (to_int64 (FirstRequestBlockId epoch)) [] of
                      None \<Rightarrow> None
                    | Some (Inl x) \<Rightarrow> Some ([LockAcquire, MinerStart, LockRelease], x)
                    | Some (Inr bodies) \<Rightarrow>
                        (case enqueueLoop EnqueueReqeustTxs' (unat (big_Uint64 numORBs)) bodies 0
                                events [LockAcquire, MinerStart] of
                           (effs, x) \<Rightarrow>
                             Some (if x = Blocks then effs else effs @ [LockRelease], x)))))
      else Some ([LockAcquire, MinerStart, LockRelease], ReturnsNil))"

text \<open>The batches enqueued into the pool, in order.\<close>

fun enqueuedBatches :: "effect list \<Rightarrow> Transaction list list" where
  "enqueuedBatches [] = []"
| "enqueuedBatches (EnqueueReqeustTxs body # effs) = body # enqueuedBatches effs"
| "enqueuedBatches (_ # effs) = enqueuedBatches effs"

text \<open>
  The batches as the specification describes them: the batch of one ORB holds the request
  transactions of its EROs in ascending \<open>requestId\<close> over \<open>[requestStart, requestEnd]\<close>,
  each made of the ERO that the contract holds for that id (\<open>None\<close> where the contract
  does not answer), and the batches of an epoch are those of the request blocks
  \<open>first, first + 1, ...\<close> in ascending order.
\<close>

fun spec_materialize :: "rootchainContract \<Rightarrow> Params \<Rightarrow> nat list \<Rightarrow> Transaction list option" where
  "spec_materialize rc params [] = Some []"
| "spec_materialize rc params (requestId # requestIds) =
     (case EROs rc (int requestId) of
        Inl err \<Rightarrow> None
      | Inr request \<Rightarrow>
          (case spec_materialize rc params requestIds of
             None \<Rightarrow> None
           | Some txs \<Rightarrow> Some (requestTx rc params (int requestId) request # txs)))"

definition spec_batch :: "rootchainContract \<Rightarrow> Params \<Rightarrow> int \<Rightarrow> Transaction list option" where
  "spec_batch rc params requestBlockId =
     (case ORBs rc requestBlockId of
        Inl err \<Rightarrow> None
      | Inr orb \<Rightarrow>
          spec_materialize rc params [unat (RequestStart orb) ..< Suc (unat (RequestEnd orb))])"

definition spec_batches :: "rootchainContract \<Rightarrow> Params \<Rightarrow> int \<Rightarrow> nat \<Rightarrow> Transaction list option list" where
  "spec_batches rc params first numORBs =
     map (\<lambda>k. spec_batch rc params (first + int k)) [0 ..< numORBs]"

text \<open>The sequence of all request transactions of the batches, one batch after the other.\<close>

fun spec_sequence :: "Transaction list option list \<Rightarrow> Transaction list option" where
  "spec_sequence [] = Some []"
| "spec_sequence (None # batches) = None"
| "spec_sequence (Some batch # batches) =
     (case spec_sequence batches of None \<Rightarrow> None | Some txs \<Rightarrow> Some (batch @ txs))"

text \<open>
  An ORB that the handler can take in: its last request id is below \<open>2^63\<close>, so that the
  loop over its ids ends and \<open>int64\<close> keeps each id, and its capacity is within the limit.
\<close>

definition orbInRange :: "makeLimits \<Rightarrow> ORB \<Rightarrow> bool" where
  "orbInRange limits orb \<longleftrightarrow>
     unat (RequestEnd orb) < 2 ^ 63
     \<and> unat (RequestEnd orb - RequestStart orb + 1) \<le> maxTransactions limits"

section \<open>Example inputs\<close>

text \<open>A block with three transactions, of hashes 11, 12 and 13.\<close>

definition block1 :: Block where
  "block1 = \<lparr>Hash = 9, Number = 5, Transactions = [11, 12, 13], IsRequest = False,
             Root = 0, TxHash = 0, ReceiptHash = 0\<rparr>"

text \<open>A receipts reader that finds one receipt for every block.\<close>

definition receipt1 :: Receipt where
  "receipt1 = \<lparr>Status = 0, GetRlp = [1, 2, 3]\<rparr>"

definition readOneReceipt :: "database \<Rightarrow> hash \<Rightarrow> uint64 \<Rightarrow> Receipt list" where
  "readOneReceipt db h n = [receipt1]"

text \<open>A configuration, an operator state with nonce 0 and gas price 1000, two blocks.\<close>

definition config1 :: Config where
  "config1 = \<lparr>RootChainContract = 99, PendingInterval = 10\<rparr>"

definition params1 :: Params where
  "params1 = \<lparr>SubmitBlockGasLimit = 4000000, SubmitBlockGasPrice = 10000,
              RequestTxGasLimit = 100000, RequestTxGasPrice = 1\<rparr>"

definition state1 :: rootchainState where
  "state1 = \<lparr>rs_currentFork = 0, rs_nonce = 0, rs_gasPrice = 1000, rs_costNRB = 0\<rparr>"

definition block2 :: Block where
  "block2 = \<lparr>Hash = 10, Number = 6, Transactions = [], IsRequest = False,
             Root = 1, TxHash = 2, ReceiptHash = 3\<rparr>"

definition env1 :: minerEnv where
  "env1 = \<lparr>Completed = False, env_IsRequest = False\<rparr>"

text \<open>The submission of \<open>block1\<close> with a given nonce and gas price.\<close>

definition submitNRB1 :: "nat \<Rightarrow> int \<Rightarrow> Transaction" where
  "submitNRB1 n g =
     NewTransaction n 99 0 4000000 g (Pack ''submitNRB'' [A_int 0, A_hash 0, A_hash 0, A_hash 0])"

text \<open>A Submitter whose local nonce is behind the nonce of the operator state.\<close>

definition submitterBehind :: Submitter where
  "submitterBehind =
     \<lparr>state = incNonce state1, nonce = 0, gasPrice = 1000, funcName = ''submitNRB'',
      txHash = None, effects = []\<rparr>"

text \<open>
  A request block of fork 1 and number 5 with the receipts \<open>[ok, failed, ok, failed]\<close>, the
  two invalid exits that the Detector records for it, and its BlockFinalized event.
\<close>

definition receiptOk :: Receipt where
  "receiptOk = \<lparr>Status = 1, GetRlp = [4, 5]\<rparr>"

definition merkleProof1 :: "Receipt list \<Rightarrow> nat \<Rightarrow> hash list" where
  "merkleProof1 receipts i = [of_nat i, 77]"

definition block5 :: Block where
  "block5 = \<lparr>Hash = 20, Number = 5, Transactions = [21, 22, 23, 24], IsRequest = True,
             Root = 1, TxHash = 2, ReceiptHash = 3\<rparr>"

definition exitAt :: "nat \<Rightarrow> invalidExit" where
  "exitAt i = \<lparr>ie_forkNumber = 1, ie_blockNumber = 5, ie_receipt = receipt1, ie_index = int i,
               ie_proof = [of_nat i, 77]\<rparr>"

definition rcm1 :: RootChainManager where
  "rcm1 = \<lparr>rcm_state = state1, invalidExits = Map.empty\<rparr>"

definition rcm2 :: RootChainManager where
  "rcm2 = \<lparr>rcm_state = state1, invalidExits = [1 \<mapsto> [5 \<mapsto> [exitAt 1, exitAt 3]]]\<rparr>"

definition finalized1 :: BlockFinalized where
  "finalized1 = \<lparr>ForkNumber = 1, BlockNumber = 5\<rparr>"

definition getRequestBlock :: "int \<Rightarrow> int \<Rightarrow> error + bool" where
  "getRequestBlock fork num = Inr True"

text \<open>
  A request epoch over the blocks 200 and 201 whose first request block is 7, with the
  ORBs \<open>7 = [10..11]\<close> and \<open>8 = [12..12]\<close>; the ERO 11 is an exit request, the others are
  transfers. The pool accepts every batch.
\<close>

definition rootchain1 :: rootchainContract where
  "rootchain1 =
     \<lparr>GetEpoch = (\<lambda>fork epochNumber. Inr \<lparr>FirstRequestBlockId = 7\<rparr>),
      ORBs = (\<lambda>requestBlockId.
                if requestBlockId = 7 then Inr \<lparr>RequestStart = 10, RequestEnd = 11\<rparr>
                else if requestBlockId = 8 then Inr \<lparr>RequestStart = 12, RequestEnd = 12\<rparr>
                else Inl ''no such block''),
      EROs = (\<lambda>requestId.
                Inr \<lparr>IsTransfer = (requestId \<noteq> 11), IsExit = (requestId = 11), Requestor = 50,
                     To = 60, Value = requestId, TrieKey = 1, TrieValue = 2\<rparr>),
      RequestableContracts = (\<lambda>a. a + 1)\<rparr>"

text \<open>
  A contract whose first ORB ends at the last request id there is, \<open>2^64 - 1\<close>.
\<close>

definition rootchain2 :: rootchainContract where
  "rootchain2 = rootchain1\<lparr>ORBs := (\<lambda>requestBlockId. Inr \<lparr>RequestStart = 0, RequestEnd = - 1\<rparr>)\<rparr>"

definition epoch1 :: EpochPrepared where
  "epoch1 = \<lparr>EpochNumber = 3, StartBlockNumber = 200, EndBlockNumber = 201,
             ep_IsRequest = True, EpochIsEmpty = False\<rparr>"

definition acceptAll :: "Transaction list \<Rightarrow> error option" where
  "acceptAll body = None"

definition rejectAll :: "Transaction list \<Rightarrow> error option" where
  "rejectAll body = Some ''rejected''"

definition limits1 :: makeLimits where
  "limits1 = \<lparr>maxTransactions = 1000, maxBodies = 1000\<rparr>"

definition transferTx :: "int \<Rightarrow> Transaction" where
  "transferTx v = NewTransaction 0 50 v 100000 1 NoInput"

definition exitTx11 :: Transaction where
  "exitTx11 = NewTransaction 0 61 11 100000 1
     (Pack ''applyRequestInChildChain'' [A_bool True, A_int 11, A_address 50, A_hash 1, A_hash 2])"

definition effects1 :: "effect list" where
  "effects1 =
     [LockAcquire, MinerStart, EnqueueReqeustTxs [transferTx 10, exitTx11],
      EnqueueReqeustTxs [transferTx 12], LockRelease]"

section \<open>Properties of the storage accessors\<close>

subsection \<open>The encoding round-trips\<close>

lemma be_nat_append: "be_nat (xs @ [b]) = 256 * be_nat xs + unat b"
  by (simp add: be_nat_def)

lemma be_nat_be_bytes: "be_nat (be_bytes n) = n"
proof (induction n rule: be_bytes.induct)
  case (1 n)
  show ?case
  proof (cases "n = 0")
    case True
    then show ?thesis by (simp add: be_bytes.simps be_nat_def)
  next
    case False
    have "unat (of_nat (n mod 256) :: byte) = n mod 256"
      by (simp add: unat_of_nat)
    with False 1 show ?thesis
      by (subst be_bytes.simps) (simp add: be_nat_append)
  qed
qed

lemma length_be_bytes: "n < 256 ^ k \<Longrightarrow> length (be_bytes n) \<le> k"
proof (induction n arbitrary: k rule: be_bytes.induct)
  case (1 n)
  show ?case
  proof (cases "n = 0")
    case True
    then show ?thesis by (simp add: be_bytes.simps)
  next
    case False
    with 1(2) obtain j where k: "k = Suc j" by (cases k) auto
    with 1(2) have "n div 256 < 256 ^ j"
      by (simp add: less_mult_imp_div_less)
    with 1(1) False have "length (be_bytes (n div 256)) \<le> j" by blast
    with False k show ?thesis by (subst be_bytes.simps) simp
  qed
qed

lemma be_bytes_eq_Nil: "be_bytes n = [] \<longleftrightarrow> n = 0"
  by (subst be_bytes.simps) simp

lemma be_nat_replicate0: "be_nat (replicate k 0 @ bs) = be_nat bs"
  by (induction k) (simp_all add: be_nat_def)

lemma unat_header_byte: "n < 256 \<Longrightarrow> unat (of_nat n :: byte) = n"
  by (simp add: unat_of_nat)

lemma rlp_split_Cons:
  "m < 256 \<Longrightarrow> rlp_split ((of_nat m :: byte) # r) =
     (if m < 128 then Some (String, [of_nat m], r)
      else if m < 184 then rlp_take String (m - 128) r
      else if m < 192 then rlp_take_long String (m - 183) r
      else if m < 248 then rlp_take List (m - 192) r
      else rlp_take_long List (m - 247) r)"
  by (simp add: rlp_split_def unat_header_byte Let_def del: of_nat_add)

lemma rlp_take_append: "rlp_take k (length bs) (bs @ rest) = Some (k, bs, rest)"
  by (simp add: rlp_take_def)

lemma rlp_take_long_append:
  "rlp_take_long k (length (be_bytes (length bs))) (be_bytes (length bs) @ bs @ rest) = Some (k, bs, rest)"
  by (simp add: rlp_take_long_def be_nat_be_bytes rlp_take_append)

lemma length_be_bytes_pos: "0 < n \<Longrightarrow> 0 < length (be_bytes n)"
  by (simp add: be_bytes_eq_Nil)

lemma rlp_split_list:
  assumes "length payload < 2 ^ 64"
  shows "rlp_split (rlp_list payload @ rest) = Some (List, payload, rest)"
proof (cases "length payload \<le> 55")
  case True
  then show ?thesis
    by (simp add: rlp_list_def rlp_header_def rlp_split_Cons rlp_take_append del: of_nat_add)
next
  case False
  define ll where "ll = length (be_bytes (length payload))"
  have "length payload < 256 ^ 8" using assms by simp
  then have le: "ll \<le> 8" unfolding ll_def by (rule length_be_bytes)
  have pos: "0 < ll" unfolding ll_def using False by (auto simp: be_bytes_eq_Nil)
  show ?thesis using False le pos rlp_take_long_append [of List payload rest]
    by (simp add: rlp_list_def rlp_header_def rlp_split_Cons ll_def [symmetric] del: of_nat_add)
qed

lemma rlp_split_string:
  assumes "length bs < 2 ^ 64"
  shows "rlp_split (rlp_string bs @ rest) = Some (String, bs, rest)"
proof (cases "length bs = 1 \<and> unat (hd bs) < 128")
  case True
  then obtain b where "bs = [b]" by (cases bs) auto
  with True show ?thesis by (simp add: rlp_string_def rlp_split_def)
next
  case False
  then have single: "rlp_string bs = rlp_header 128 (length bs) @ bs"
    unfolding rlp_string_def by (rule if_not_P)
  show ?thesis
  proof (cases "length bs \<le> 55")
    case True
    then show ?thesis
      by (simp add: single rlp_header_def rlp_split_Cons rlp_take_append del: of_nat_add)
  next
    case False
    define ll where "ll = length (be_bytes (length bs))"
    have "length bs < 256 ^ 8" using assms by simp
    then have le: "ll \<le> 8" unfolding ll_def by (rule length_be_bytes)
    have pos: "0 < ll" unfolding ll_def using False by (auto simp: be_bytes_eq_Nil)
    show ?thesis using False le pos rlp_take_long_append [of String bs rest]
      by (simp add: single rlp_header_def rlp_split_Cons ll_def [symmetric] del: of_nat_add)
  qed
qed

lemma length_be_bytes_uint64: "length (be_bytes (unat (n :: uint64))) \<le> 8"
proof -
  have "unat n < 2 ^ 64" using unsigned_less [of n] by simp
  then have "unat n < 256 ^ 8" by simp
  then show ?thesis by (rule length_be_bytes)
qed

lemma length_be_bytes_hash: "length (be_bytes (unat (h :: hash))) \<le> 32"
proof -
  have "unat h < 2 ^ 256" using unsigned_less [of h] by simp
  then have "unat h < 256 ^ 32" by simp
  then show ?thesis by (rule length_be_bytes)
qed

lemma length_hash_Bytes: "length (hash_Bytes h) = 32"
  using length_be_bytes_hash [of h] by (simp add: hash_Bytes_def Let_def)

lemma BytesToHash_hash_Bytes: "BytesToHash (hash_Bytes h) = h"
  by (simp add: BytesToHash_def hash_Bytes_def Let_def be_nat_replicate0 be_nat_be_bytes)

lemma decode_uint64_rlp: "decode_uint64 (rlp_uint64 n @ rest) = Some (n, rest)"
proof -
  have "length (be_bytes (unat n)) < 2 ^ 64"
    using length_be_bytes_uint64 [of n] by simp
  then show ?thesis
    using length_be_bytes_uint64 [of n]
    by (simp add: decode_uint64_def rlp_uint64_def rlp_split_string be_nat_be_bytes)
qed

lemma decode_hash_rlp: "decode_hash (rlp_hash h @ rest) = Some (h, rest)"
  by (simp add: decode_hash_def rlp_hash_def rlp_split_string length_hash_Bytes
        BytesToHash_hash_Bytes)

lemma rlp_string_nonempty: "rlp_string bs \<noteq> []"
  by (auto simp: rlp_string_def rlp_header_def)

lemma rlp_list_nonempty: "rlp_list bs \<noteq> []"
  by (auto simp: rlp_list_def rlp_header_def)

lemma length_rlp_string_short: "length bs \<le> 55 \<Longrightarrow> length (rlp_string bs) \<le> Suc (length bs)"
  by (auto simp: rlp_string_def rlp_header_def)

lemma length_rlp_uint64: "length (rlp_uint64 n) \<le> 9"
  using length_be_bytes_uint64 [of n] length_rlp_string_short [of "be_bytes (unat n)"]
  by (simp add: rlp_uint64_def)

lemma length_rlp_hash: "length (rlp_hash h) \<le> 33"
  using length_rlp_string_short [of "hash_Bytes h"]
  by (simp add: rlp_hash_def length_hash_Bytes)

lemma decode_uint64s_rlp: "decode_uint64s (concat (map rlp_uint64 ns)) = Some ns"
proof (induction ns)
  case Nil
  show ?case by (simp add: decode_uint64s.simps)
next
  case (Cons n ns)
  have "rlp_uint64 n \<noteq> []" by (simp add: rlp_uint64_def rlp_string_nonempty)
  with Cons show ?case
    by (subst decode_uint64s.simps) (simp add: decode_uint64_rlp)
qed

lemma length_concat_rlp_uint64: "length (concat (map rlp_uint64 ns)) \<le> 9 * length ns"
proof (induction ns)
  case Nil
  show ?case by simp
next
  case (Cons n ns)
  with length_rlp_uint64 [of n] show ?case by simp
qed

lemma length_rlp_list: "length (rlp_list bs) \<le> 9 + length bs" if "length bs < 2 ^ 64"
proof -
  have "length bs < 256 ^ 8" using that by simp
  then have "length (be_bytes (length bs)) \<le> 8" by (rule length_be_bytes)
  then show ?thesis by (simp add: rlp_list_def rlp_header_def)
qed

lemma DecodeBytes_TxLookupEntry_Encode:
  "DecodeBytes_TxLookupEntry (EncodeToBytes_TxLookupEntry entry) = Some entry"
proof -
  let ?payload = "rlp_hash (BlockHash entry) @ rlp_uint64 (BlockIndex entry) @ rlp_uint64 (Index entry)"
  have "length ?payload \<le> 51"
    using length_rlp_hash [of "BlockHash entry"] length_rlp_uint64 [of "BlockIndex entry"]
      length_rlp_uint64 [of "Index entry"] by simp
  then have "length ?payload < 2 ^ 64" by simp
  then have split: "rlp_split (rlp_list ?payload) = Some (List, ?payload, [])"
    using rlp_split_list [of ?payload "[]"] by simp
  have last: "decode_uint64 (rlp_uint64 (Index entry)) = Some (Index entry, [])"
    using decode_uint64_rlp [of "Index entry" "[]"] by simp
  show ?thesis
    unfolding DecodeBytes_TxLookupEntry_def EncodeToBytes_TxLookupEntry_def
    by (simp add: split decode_hash_rlp decode_uint64_rlp last)
qed

lemma EncodeToBytes_TxLookupEntry_nonempty: "EncodeToBytes_TxLookupEntry entry \<noteq> []"
  by (simp add: EncodeToBytes_TxLookupEntry_def rlp_list_nonempty)

lemma DecodeBytes_InvalidExitReceiptsLookupEntry_Encode:
  assumes "length (ier_Indices entry) < 2 ^ 60"
  shows "DecodeBytes_InvalidExitReceiptsLookupEntry
           (EncodeToBytes_InvalidExitReceiptsLookupEntry entry) = Some entry"
proof -
  let ?items = "concat (map rlp_uint64 (ier_Indices entry))"
  let ?payload = "rlp_hash (ier_BlockHash entry) @ rlp_uint64 (ier_BlockIndex entry) @ rlp_list ?items"
  have items: "length ?items \<le> 9 * 2 ^ 60"
    using length_concat_rlp_uint64 [of "ier_Indices entry"] assms by simp
  then have items64: "length ?items < 2 ^ 64" by simp
  have "length (rlp_list ?items) \<le> 9 + 9 * 2 ^ 60"
    using length_rlp_list [OF items64] items by simp
  then have "length ?payload \<le> 51 + 9 * 2 ^ 60"
    using length_rlp_hash [of "ier_BlockHash entry"] length_rlp_uint64 [of "ier_BlockIndex entry"]
    by simp
  then have "length ?payload < 2 ^ 64" by simp
  then have split: "rlp_split (rlp_list ?payload) = Some (List, ?payload, [])"
    using rlp_split_list [of ?payload "[]"] by simp
  have inner: "rlp_split (rlp_list ?items) = Some (List, ?items, [])"
    using rlp_split_list [OF items64, of "[]"] by simp
  show ?thesis
    unfolding DecodeBytes_InvalidExitReceiptsLookupEntry_def
      EncodeToBytes_InvalidExitReceiptsLookupEntry_def
    by (simp add: split decode_hash_rlp decode_uint64_rlp inner decode_uint64s_rlp)
qed

lemma EncodeToBytes_InvalidExitReceiptsLookupEntry_nonempty:
  "EncodeToBytes_InvalidExitReceiptsLookupEntry entry \<noteq> []"
  by (simp add: EncodeToBytes_InvalidExitReceiptsLookupEntry_def rlp_list_nonempty)

subsection \<open>The transaction lookup index\<close>

lemma WriteTxLookupEntries_from_other:
  "h \<notin> set txs \<Longrightarrow> WriteTxLookupEntries_from db block i txs (txLookupKey h) = db (txLookupKey h)"
  by (induction txs arbitrary: db i) (auto simp: db_Put_def Let_def)

lemma WriteTxLookupEntries_from_nth:
  "distinct txs \<Longrightarrow> k < length txs \<Longrightarrow>
   WriteTxLookupEntries_from db block i txs (txLookupKey (txs ! k)) =
     Some (EncodeToBytes_TxLookupEntry
             \<lparr>BlockHash = Hash block, BlockIndex = NumberU64 block, Index = of_nat (i + k)\<rparr>)"
proof (induction txs arbitrary: db i k)
  case Nil
  then show ?case by simp
next
  case (Cons tx txs)
  show ?case
  proof (cases k)
    case 0
    with Cons.prems show ?thesis
      by (simp add: Let_def WriteTxLookupEntries_from_other db_Put_def)
  next
    case (Suc j)
    with Cons.prems have "distinct txs" "j < length txs" by simp_all
    from Cons.IH [OF this] Suc show ?thesis by (simp add: Let_def add.assoc)
  qed
qed

lemma ReadTxLookupEntry_stored:
  "db (txLookupKey h) = Some (EncodeToBytes_TxLookupEntry entry) \<Longrightarrow>
   ReadTxLookupEntry db h = (BlockHash entry, BlockIndex entry, Index entry)"
  by (simp add: ReadTxLookupEntry_def db_Get_def Let_def DecodeBytes_TxLookupEntry_Encode
        EncodeToBytes_TxLookupEntry_nonempty)

lemma ReadTxLookupEntry_missing:
  "db (txLookupKey h) = None \<Longrightarrow> ReadTxLookupEntry db h = (0, 0, 0)"
  by (simp add: ReadTxLookupEntry_def db_Get_def)

text \<open>
  Claim C9. For a block whose transactions have pairwise distinct hashes, after
  \<open>WriteTxLookupEntries\<close> the entry read back for the hash of the transaction at position
  \<open>idx\<close> is the block's hash, the block's number and \<open>idx\<close> (as the \<open>uint64\<close> the
  code stores, \<open>uint64(i)\<close>); and after \<open>DeleteTxLookupEntry(hash)\<close>, on any database,
  \<open>ReadTxLookupEntry(hash)\<close> returns the empty tuple: the zero hash, 0 and 0.
\<close>

theorem tx_lookup_round_trip:
  assumes "distinct (Transactions block)" and "idx < length (Transactions block)"
  shows "ReadTxLookupEntry (WriteTxLookupEntries db block) (Transactions block ! idx)
           = (Hash block, NumberU64 block, of_nat idx)
         \<and> ReadTxLookupEntry (DeleteTxLookupEntry db2 hash) hash = (0, 0, 0)"
proof
  have "WriteTxLookupEntries db block (txLookupKey (Transactions block ! idx)) =
          Some (EncodeToBytes_TxLookupEntry
             \<lparr>BlockHash = Hash block, BlockIndex = NumberU64 block, Index = of_nat idx\<rparr>)"
    unfolding WriteTxLookupEntries_def
    using WriteTxLookupEntries_from_nth [OF assms, of db block 0] by simp
  then show "ReadTxLookupEntry (WriteTxLookupEntries db block) (Transactions block ! idx)
           = (Hash block, NumberU64 block, of_nat idx)"
    by (simp add: ReadTxLookupEntry_stored)
  show "ReadTxLookupEntry (DeleteTxLookupEntry db2 hash) hash = (0, 0, 0)"
    by (rule ReadTxLookupEntry_missing) (simp add: DeleteTxLookupEntry_def db_Delete_def)
qed

theorem tx_lookup_round_trip_witness:
  "distinct (Transactions block1) \<and> 1 < length (Transactions block1)
   \<and> ReadTxLookupEntry (WriteTxLookupEntries Map.empty block1) 12 = (9, 5, 1)
   \<and> ReadTxLookupEntry (DeleteTxLookupEntry (WriteTxLookupEntries Map.empty block1) 12) 12 = (0, 0, 0)"
proof -
  have d: "distinct (Transactions block1)" by (simp add: block1_def)
  have l: "1 < length (Transactions block1)" by (simp add: block1_def)
  from tx_lookup_round_trip [OF d l, of Map.empty "WriteTxLookupEntries Map.empty block1" 12]
  show ?thesis using d l by (simp add: block1_def NumberU64_def)
qed

subsection \<open>The invalid-exit receipts index\<close>

lemma projectReceipts_ok:
  "\<forall>i\<in>set indices. unat i < length receipts \<Longrightarrow>
   projectReceipts receipts indices m =
     Inr (\<lambda>i. if i \<in> set indices then Some (receipts ! unat i) else m i)"
proof (induction indices arbitrary: m)
  case Nil
  show ?case by simp
next
  case (Cons index indices)
  then show ?case by (auto intro!: ext)
qed

lemma ReadInvalidExitReceiptsLookupEntry_Write:
  "length indices < 2 ^ 60 \<Longrightarrow>
   ReadInvalidExitReceiptsLookupEntry
     (WriteInvalidExitReceiptsLookupEntry db hash num fork indices) hash num fork
   = (hash, num, indices)"
  by (simp add: ReadInvalidExitReceiptsLookupEntry_def WriteInvalidExitReceiptsLookupEntry_def
        db_Get_def db_Put_def Let_def DecodeBytes_InvalidExitReceiptsLookupEntry_Encode
        EncodeToBytes_InvalidExitReceiptsLookupEntry_nonempty)

text \<open>
  Claim C10, as the code has it. \<open>ReadInvalidExitReceipts\<close> treats the zero hash as
  "no entry" and returns the nil map for it, and \<open>receipts[index]\<close> panics for an index
  that is not a position of the stored receipts list. For a block hash other than the
  zero hash and indices that are all positions of the receipts list stored for the
  block, what was written with \<open>WriteInvalidExitReceiptsLookupEntry\<close> is read back as a
  mapping whose key set is the set of the indices and whose value at each index \<open>i\<close> is
  \<open>receipts[i]\<close>. (The bound on the number of indices is far above what a Go slice can
  hold; it keeps the encoded length within the eight bytes of a length prefix.)
\<close>

theorem invalid_exit_round_trip:
  fixes ReadReceipts :: "database \<Rightarrow> hash \<Rightarrow> uint64 \<Rightarrow> Receipt list"
  defines "written \<equiv> \<lambda>db hash num fork indices.
             WriteInvalidExitReceiptsLookupEntry db hash num fork indices"
  assumes "hash \<noteq> 0"
    and "length indices < 2 ^ 60"
    and "\<forall>i\<in>set indices. unat i < length (ReadReceipts (written db hash num fork indices) hash num)"
  shows "\<exists>r. ReadInvalidExitReceipts ReadReceipts (written db hash num fork indices) hash num fork
               = Inr r
             \<and> dom (entries_of r) = set indices
             \<and> (\<forall>i\<in>set indices.
                   entries_of r i
                   = Some (ReadReceipts (written db hash num fork indices) hash num ! unat i))"
proof (cases "length (ReadReceipts (written db hash num fork indices) hash num) = 0")
  case True
  with assms(4) have "indices = []" by (cases indices) auto
  with True assms show ?thesis
    by (simp add: ReadInvalidExitReceipts_def ReadInvalidExitReceiptsLookupEntry_Write
          entries_of_def)
next
  case False
  with assms show ?thesis
    by (auto simp add: ReadInvalidExitReceipts_def ReadInvalidExitReceiptsLookupEntry_Write
          projectReceipts_ok entries_of_def Let_def dom_def)
qed

theorem invalid_exit_round_trip_witness:
  "(7 :: hash) \<noteq> 0 \<and> length [0 :: uint64] < 2 ^ 60
   \<and> unat (0 :: uint64)
       < length (readOneReceipt (WriteInvalidExitReceiptsLookupEntry Map.empty 7 5 1 [0]) 7 5)
   \<and> (\<exists>r. ReadInvalidExitReceipts readOneReceipt
              (WriteInvalidExitReceiptsLookupEntry Map.empty 7 5 1 [0]) 7 5 1 = Inr r
          \<and> dom (entries_of r) = {0}
          \<and> entries_of r 0 = Some receipt1)"
proof -
  have h: "(7 :: hash) \<noteq> 0" by simp
  have l: "length [0 :: uint64] < 2 ^ 60" by simp
  have i: "\<forall>i\<in>set [0 :: uint64].
             unat i < length (readOneReceipt (WriteInvalidExitReceiptsLookupEntry Map.empty 7 5 1 [0]) 7 5)"
    by (simp add: readOneReceipt_def)
  from invalid_exit_round_trip [of 7 "[0]" readOneReceipt Map.empty 5 1, OF h l i] h l i
  show ?thesis by (simp add: readOneReceipt_def)
qed

text \<open>
  Claim C10 as stated fails for the zero hash: the entry written under it, with the
  index 0 and one stored receipt, is read back as the nil map, whose key set is empty.
\<close>

theorem invalid_exit_zero_hash_counterexample:
  "ReadInvalidExitReceipts readOneReceipt
     (WriteInvalidExitReceiptsLookupEntry Map.empty 0 5 1 [0]) 0 5 1 = Inr None
   \<and> dom (entries_of None) \<noteq> set [0 :: uint64]"
  by (simp add: ReadInvalidExitReceipts_def ReadInvalidExitReceiptsLookupEntry_Write
        entries_of_def)

section \<open>Properties of the gas-price adjustment\<close>

lemma big_Quo_nonneg: "0 \<le> x \<Longrightarrow> 0 < y \<Longrightarrow> big_Quo x y = x div y"
  by (simp add: big_Quo_def sgn_if)

lemma big_Quo_neg: "x < 0 \<Longrightarrow> 0 < y \<Longrightarrow> big_Quo x y = - ((- x) div y)"
  by (simp add: big_Quo_def sgn_if)

text \<open>For a positive divisor the Euclidean quotient is the floor quotient.\<close>

lemma big_Div_pos:
  assumes y: "0 < y"
  shows "big_Div x y = x div y"
proof (cases "0 \<le> x")
  case True
  have "y * (x div y) \<le> x"
  proof -
    have "x mod y \<ge> 0" using y by simp
    moreover have "y * (x div y) + x mod y = x" by simp
    ultimately show ?thesis by linarith
  qed
  then show ?thesis using True y
    by (simp add: big_Div_def big_Quo_nonneg Let_def)
next
  case False
  then have x: "x < 0" by simp
  define a where "a = - x"
  have xa: "x = - a" by (simp add: a_def)
  have m: "x - y * big_Quo x y = - (a mod y)"
    using x y unfolding xa
    by (simp add: big_Quo_neg minus_mult_div_eq_mod [symmetric] del: minus_mult_div_eq_mod)
  have nn: "0 \<le> a mod y" using y by simp
  show ?thesis
  proof (cases "a mod y = 0")
    case True
    with m y x show ?thesis
      using zdiv_zminus1_eq_if [of y a] by (simp add: big_Div_def Let_def big_Quo_neg xa)
  next
    case False
    with nn have "- (a mod y) < 0" by linarith
    with m y x False show ?thesis
      using zdiv_zminus1_eq_if [of y a] by (simp add: big_Div_def Let_def big_Quo_neg xa)
  qed
qed

lemma adjustPrice_sufficient: "adjustPrice True p = 3 * (p div 4)"
  by (simp add: adjustPrice_def big_Mul_def big_Div_pos)

lemma adjustPrice_insufficient: "adjustPrice False p = 3 * (p div 2)"
  by (simp add: adjustPrice_def big_Mul_def big_Div_pos)

lemma adjustPrice_nonneg: "0 \<le> p \<Longrightarrow> 0 \<le> adjustPrice sufficient p"
  by (cases sufficient) (simp_all add: adjustPrice_sufficient adjustPrice_insufficient)

text \<open>
  Claim C7. For every gas price \<open>p\<close> the sufficient adjustment computes exactly
  \<open>3 * (p div 4)\<close> and the insufficient one exactly \<open>3 * (p div 2)\<close>: \<open>p\<close> is divided
  first, with the floor division \<open>div\<close>, and the quotient is multiplied by 3. This is
  what the closure \<open>adjust\<close> leaves in the local \<open>gasPrice\<close> and in \<open>rcm.state.gasPrice\<close>,
  from the local gas price it finds. For a gas price that is not negative the floor
  quotient is the truncated quotient \<open>big_Quo\<close>.
\<close>

theorem adjust_formula:
  "gasPrice (adjust True s) = 3 * (gasPrice s div 4)
   \<and> rs_gasPrice (state (adjust True s)) = 3 * (gasPrice s div 4)
   \<and> gasPrice (adjust False s) = 3 * (gasPrice s div 2)
   \<and> rs_gasPrice (state (adjust False s)) = 3 * (gasPrice s div 2)
   \<and> (0 \<le> gasPrice s \<longrightarrow>
          gasPrice (adjust True s) = 3 * big_Quo (gasPrice s) 4
          \<and> gasPrice (adjust False s) = 3 * big_Quo (gasPrice s) 2)
   \<and> adjustPrice True p = 3 * (p div 4) \<and> adjustPrice False p = 3 * (p div 2)
   \<and> (0 \<le> p \<longrightarrow> adjustPrice True p = 3 * big_Quo p 4 \<and> adjustPrice False p = 3 * big_Quo p 2)"
  by (simp add: adjust_def Let_def adjustPrice_sufficient adjustPrice_insufficient big_Quo_nonneg)

theorem adjust_formula_witness:
  "0 \<le> gasPrice (initSubmitter state1)
   \<and> gasPrice (adjust True (initSubmitter state1)) = 750
   \<and> rs_gasPrice (state (adjust True (initSubmitter state1))) = 750
   \<and> gasPrice (adjust False (initSubmitter state1)) = 1500
   \<and> rs_gasPrice (state (adjust False (initSubmitter state1))) = 1500
   \<and> 3 * big_Quo 1000 4 = 750 \<and> 3 * big_Quo 1000 2 = 1500
   \<and> (0 :: int) \<le> 10 \<and> adjustPrice True 10 = 6 \<and> adjustPrice False 10 = 15
   \<and> 3 * big_Quo 10 4 = 6 \<and> 3 * big_Quo 10 2 = 15"
  using adjust_formula [of "initSubmitter state1" 10]
  by (simp add: initSubmitter_def state1_def big_Quo_def)

text \<open>
  Claim C6 as stated fails: from the strictly positive gas price 1 one sufficient
  adjustment gives \<open>3 * (1 div 4) = 0\<close>.
\<close>

theorem gas_price_positive_counterexample:
  "(0 :: int) < 1 \<and> adjustAll 1 [True] = 0"
  by (simp add: adjustPrice_sufficient)

lemma adjustAll_zero: "adjustAll 0 adjustments = 0"
  by (induction adjustments) (simp_all add: adjustPrice_def big_Mul_def big_Div_pos)

text \<open>
  Claim C6, as the code has it. From a gas price that is not negative, every finite
  sequence of adjustments gives a gas price that is not negative; from 0 it gives 0. One
  sufficient adjustment gives a strictly positive price exactly from a price of at least
  4, one insufficient adjustment exactly from a price of at least 2.
\<close>

theorem gas_price_nonneg:
  assumes "0 \<le> p"
  shows "0 \<le> adjustAll p adjustments
         \<and> adjustAll 0 adjustments = 0
         \<and> (0 < adjustPrice True p \<longleftrightarrow> 4 \<le> p) \<and> (0 < adjustPrice False p \<longleftrightarrow> 2 \<le> p)"
proof -
  from assms have "0 \<le> adjustAll p adjustments"
    by (induction adjustments arbitrary: p) (simp_all add: adjustPrice_nonneg)
  moreover have "0 < adjustPrice True p \<longleftrightarrow> 4 \<le> p"
    using assms by (simp add: adjustPrice_sufficient pos_imp_zdiv_pos_iff)
  moreover have "0 < adjustPrice False p \<longleftrightarrow> 2 \<le> p"
    using assms by (simp add: adjustPrice_insufficient pos_imp_zdiv_pos_iff)
  ultimately show ?thesis by (simp add: adjustAll_zero)
qed

theorem gas_price_nonneg_witness:
  "(0 :: int) \<le> 8 \<and> adjustAll 8 [True, False] = 9 \<and> 0 < adjustPrice True 8 \<and> 0 < adjustPrice False 8"
  using gas_price_nonneg [of 8 "[True, False]"]
  by (simp add: adjustPrice_sufficient adjustPrice_insufficient)

section \<open>Properties of the handler of BlockFinalized\<close>

lemma challengeLoop_rcm: "fst (challengeLoop config params e rcm ies effs) = rcm"
  by (induction ies arbitrary: effs) simp_all

lemma challengeLoop_effects:
  "snd (challengeLoop config params e rcm ies effs)
     = effs @ map (\<lambda>ie. SendTransaction (challengeTx config params e rcm ie)) ies"
  by (induction ies arbitrary: effs) simp_all

lemma challengeLoop_eq:
  "challengeLoop config params e rcm ies effs
     = (rcm, effs @ map (\<lambda>ie. SendTransaction (challengeTx config params e rcm ie)) ies)"
  using challengeLoop_rcm [of config params e rcm ies effs]
    challengeLoop_effects [of config params e rcm ies effs]
  by (cases "challengeLoop config params e rcm ies effs") simp

lemma sentTransactions_append:
  "sentTransactions (xs @ ys) = sentTransactions xs @ sentTransactions ys"
  by (induction xs rule: sentTransactions.induct) simp_all

lemma sentTransactions_map_Send:
  "sentTransactions (map (\<lambda>x. SendTransaction (f x)) xs) = map f xs"
  by (induction xs) simp_all

lemma appendProofs_concat: "appendProofs hs proofs = proofs @ concat (map hash_Bytes hs)"
  by (induction hs arbitrary: proofs) simp_all

lemma handleBlockFinalzied_rcm:
  "fst (handleBlockFinalzied config params walletFound GetBlock rcm e) = rcm"
  by (simp add: handleBlockFinalzied_def Let_def challengeLoop_eq split: sum.splits)

text \<open>
  Claim C4, as the code has it. For a BlockFinalized event whose block record on the root
  chain has \<open>IsRequest\<close> true (and with the operator's wallet at hand), the handler
  returns nil and sends exactly one \<open>challengeExit\<close> transaction for each InvalidExit of
  the store entry for the event's fork and block number, in the order of the entry, and
  no other transaction; each carries the fork, the block number, that exit's index, its
  receipt's RLP and the bytes of its proof's hashes, one after the other. The handler
  does not drain the entry: the manager, and with it the store, is afterwards as before.
\<close>

theorem challenge_completeness:
  assumes "GetBlock (ForkNumber e) (BlockNumber e) = Inr True" and "walletFound"
  shows "(let exits = invalidExitsAt rcm (big_Uint64 (ForkNumber e)) (big_Uint64 (BlockNumber e));
              (rcm', effs, x) = handleBlockFinalzied config params walletFound GetBlock rcm e
          in x = ReturnsNil
             \<and> sentTransactions effs = map (challengeTx config params e rcm) exits
             \<and> rcm' = rcm
             \<and> invalidExitsAt rcm' (big_Uint64 (ForkNumber e)) (big_Uint64 (BlockNumber e)) = exits)
         \<and> tx_data (challengeTx config params e rcm ie)
             = Pack ''challengeExit''
                 [A_int (ForkNumber e), A_int (BlockNumber e), A_int (ie_index ie),
                  A_bytes (GetRlp (ie_receipt ie)), A_bytes (concat (map hash_Bytes (ie_proof ie)))]"
  using assms
  by (simp add: handleBlockFinalzied_def Let_def challengeLoop_eq sentTransactions_append
        sentTransactions_map_Send challengeTx_def NewTransaction_def appendProofs_concat)

theorem challenge_completeness_witness:
  "getRequestBlock (ForkNumber finalized1) (BlockNumber finalized1) = Inr True
   \<and> map tx_data (sentTransactions (fst (snd
        (handleBlockFinalzied config1 params1 True getRequestBlock rcm2 finalized1))))
      = [Pack ''challengeExit'' [A_int 1, A_int 5, A_int 1, A_bytes [1, 2, 3],
             A_bytes (hash_Bytes 1 @ hash_Bytes 77)],
         Pack ''challengeExit'' [A_int 1, A_int 5, A_int 3, A_bytes [1, 2, 3],
             A_bytes (hash_Bytes 3 @ hash_Bytes 77)]]"
proof -
  have g: "getRequestBlock (ForkNumber finalized1) (BlockNumber finalized1) = Inr True"
    by (simp add: getRequestBlock_def)
  have x: "invalidExitsAt rcm2 (big_Uint64 1) (big_Uint64 5) = [exitAt 1, exitAt 3]"
    by (simp add: invalidExitsAt_def rcm2_def big_Uint64_def)
  note c = challenge_completeness [where GetBlock = getRequestBlock and e = finalized1
      and walletFound = True and rcm = rcm2 and config = config1 and params = params1]
  from c [where ie = "exitAt 1"] c [where ie = "exitAt 3"]
  show ?thesis using g
    by (simp add: x Let_def split_beta exitAt_def receipt1_def finalized1_def)
qed

text \<open>
  Claim C4 as stated fails in its last part: after the handler the store entry of the
  finalized block still holds its two invalid exits.
\<close>

theorem store_not_drained_counterexample:
  "getRequestBlock (ForkNumber finalized1) (BlockNumber finalized1) = Inr True
   \<and> invalidExitsAt (fst (handleBlockFinalzied config1 params1 True getRequestBlock rcm2 finalized1))
        (big_Uint64 (ForkNumber finalized1)) (big_Uint64 (BlockNumber finalized1))
      = [exitAt 1, exitAt 3]"
  by (simp add: handleBlockFinalzied_rcm getRequestBlock_def invalidExitsAt_def rcm2_def
        finalized1_def big_Uint64_def)

text \<open>
  Claim C3 fails on the code. Every challenge transaction carries the nonce that
  \<open>getNonce\<close> reads from the operator state, and nothing in the handler increments it:
  for the block with two recorded invalid exits, both challenges carry the nonce 0.
\<close>

theorem challenges_share_one_nonce:
  "tx_nonce (challengeTx config params e rcm ie) = getNonce (rcm_state rcm)
   \<and> map tx_nonce (sentTransactions (fst (snd
        (handleBlockFinalzied config1 params1 True getRequestBlock rcm2 finalized1)))) = [0, 0]"
  by (simp add: handleBlockFinalzied_def Let_def challengeLoop_eq sentTransactions_append
        sentTransactions_map_Send challengeTx_def NewTransaction_def getRequestBlock_def
        invalidExitsAt_def rcm2_def finalized1_def big_Uint64_def getNonce_def state1_def)

text \<open>
  The Detector records the failed receipts of a mined request block, by position: after
  its step, the entry of the block holds one invalid exit for each receipt whose status
  is \<open>ReceiptStatusFailed\<close>, in ascending position.
\<close>

lemma detectFrom_eq:
  "detectFrom G fork num receipts i rs acc
     = acc @ map (\<lambda>k. \<lparr>ie_forkNumber = fork, ie_blockNumber = num, ie_receipt = rs ! k,
                        ie_index = int (i + k), ie_proof = G receipts (i + k)\<rparr>)
               (filter (\<lambda>k. Status (rs ! k) = ReceiptStatusFailed) [0 ..< length rs])"
proof (induction rs arbitrary: i acc)
  case Nil
  show ?case by simp
next
  case (Cons r rs)
  have up: "[0 ..< length (r # rs)] = 0 # map Suc [0 ..< length rs]"
    by (simp add: upt_conv_Cons map_Suc_upt del: upt_Suc)
  show ?case
    unfolding up by (simp add: Cons.IH filter_map comp_def del: upt_Suc)
qed

lemma detector_records_failed_receipts:
  assumes "onMinedBlockDetector G True (Inr fork) (Some block) receipts rcm = Inr rcm'"
  shows "map ie_index (invalidExitsAt rcm' (big_Uint64 fork) (big_Uint64 (int (Number block))))
           = map int (filter (\<lambda>k. Status (receipts ! k) = ReceiptStatusFailed) [0 ..< length receipts])"
  using assms
  by (auto simp: onMinedBlockDetector_def Let_def invalidExitsAt_def detectFrom_eq comp_def)

section \<open>Properties of the Submitter\<close>

lemma state_adjust: "rs_nonce (state (adjust sufficient s)) = rs_nonce (state s)"
  by (simp add: adjust_def Let_def)

lemma state_submit: "state (snd (submit config params name block s)) = state s"
  by (simp add: submit_def Let_def)

lemma onTick_nonce: "getNonce (state (onTick config params block ok s)) = getNonce (state s)"
  by (simp add: onTick_def Let_def split_beta state_submit state_adjust getNonce_def)

lemma onBlockSubmitted_nonce:
  "getNonce (state (onBlockSubmitted r s)) = getNonce (state s) + 1"
  by (cases r) (simp_all add: onBlockSubmitted_def Let_def state_adjust getNonce_def incNonce_def)

lemma onMinedBlock_nonce:
  "getNonce (state (onMinedBlock config params block env s)) = getNonce (state s)"
  by (simp add: onMinedBlock_def Let_def split_beta state_submit)

lemma pendingLoop_nonce:
  "getNonce (state (pendingLoop config params block s pending))
     = getNonce (state s) + submittedIn pending"
  by (induction pending arbitrary: s rule: submittedIn.induct)
     (simp_all add: onTick_nonce onBlockSubmitted_nonce)

lemma pendingLoop_append:
  "pendingLoop config params block s (xs @ ys)
     = pendingLoop config params block (pendingLoop config params block s xs) ys"
  by (induction xs arbitrary: s rule: submittedIn.induct) simp_all

lemma outerLoop_nonce:
  "getNonce (state (final (outerLoop config params s evs)))
     = getNonce (state s) + receivedBlockSubmitted config True evs"
proof (cases evs)
  case Nil
  then show ?thesis by simp
next
  case (Cons ev rest)
  then show ?thesis
    by (cases ev)
       (simp_all add: Let_def newPendingTicker_def pendingLoop_nonce onMinedBlock_nonce)
qed

lemma receivedBlockSubmitted_no_wallet: "receivedBlockSubmitted config False evs = 0"
  by (cases "(config, False, evs)" rule: receivedBlockSubmitted.cases) simp_all

text \<open>
  Claim C5. In every run of the Submitter the nonce of the operator state ends as its
  initial value plus the number of BlockSubmitted events that the pending loop has
  received; along the pending loop it never decreases; a mined block and a tick (with
  its resubmission) leave it as it is, a BlockSubmitted event adds exactly one; and the
  handler of BlockFinalized, which reads the nonce for its challenges, leaves the
  operator state as it is.
\<close>

theorem nonce_monotone:
  "getNonce (state (final (runSubmitter config params walletFound rs evs)))
     = getNonce rs + receivedBlockSubmitted config walletFound evs
   \<and> getNonce (state (pendingLoop config params block s pending))
       \<le> getNonce (state (pendingLoop config params block s (pending @ later)))
   \<and> getNonce (state (pendingLoop config params block s pending))
       = getNonce (state s) + submittedIn pending
   \<and> getNonce (state (onMinedBlock config params block env s)) = getNonce (state s)
   \<and> getNonce (state (onTick config params block ok s)) = getNonce (state s)
   \<and> getNonce (state (onBlockSubmitted r s)) = getNonce (state s) + 1
   \<and> rcm_state (fst (handleBlockFinalzied config params w GetBlock rcm e)) = rcm_state rcm"
proof -
  have "getNonce (state (final (runSubmitter config params walletFound rs evs)))
           = getNonce rs + receivedBlockSubmitted config walletFound evs"
    using outerLoop_nonce [of config params "initSubmitter rs" evs]
    by (simp add: runSubmitter_def initSubmitter_def receivedBlockSubmitted_no_wallet)
  moreover have "getNonce (state (pendingLoop config params block s pending))
           \<le> getNonce (state (pendingLoop config params block s (pending @ later)))"
    by (simp add: pendingLoop_append pendingLoop_nonce)
  ultimately show ?thesis
    by (simp add: pendingLoop_nonce onMinedBlock_nonce onTick_nonce onBlockSubmitted_nonce
          handleBlockFinalzied_rcm)
qed

theorem nonce_monotone_witness:
  "getNonce (state (final (runSubmitter config1 params1 True state1
      [NewMinedBlockEvent block1 env1 [Tick True, Tick True, BlockSubmitted (ReceiptStatus 1)]])))
    = getNonce state1 + 1"
  using nonce_monotone [of config1 params1 True state1
     "[NewMinedBlockEvent block1 env1 [Tick True, Tick True, BlockSubmitted (ReceiptStatus 1)]]"]
  by (simp add: config1_def)

text \<open>
  Claim C1, as the code has it. On a tick (received with \<open>ok\<close>): if the local nonce equals
  the nonce of the operator state, the gas price becomes \<open>3 * (gasPrice div 2)\<close>, locally and
  in the operator state, and the block is submitted again with the same nonce and the new
  gas price; otherwise the local nonce becomes the nonce of the operator state, the gas
  price stays, and the block is submitted again with the new nonce. A receive without
  \<open>ok\<close> changes nothing. The insufficient adjustment raises the gas price exactly when
  the price is 2 or at least 4.
\<close>

theorem tick_behaviour:
  "(nonce s = getNonce (state s) \<longrightarrow>
      (let s' = onTick config params block True s;
           tx = submitTx config params (funcName s) block (s\<lparr>gasPrice := 3 * (gasPrice s div 2)\<rparr>)
       in gasPrice s' = 3 * (gasPrice s div 2) \<and> rs_gasPrice (state s') = 3 * (gasPrice s div 2)
          \<and> nonce s' = nonce s \<and> txHash s' = Some tx
          \<and> tx_nonce tx = nonce s \<and> tx_gasPrice tx = 3 * (gasPrice s div 2)
          \<and> effects s' = effects s @ [SendTransaction tx]))
   \<and> (nonce s \<noteq> getNonce (state s) \<longrightarrow>
      (let s' = onTick config params block True s;
           tx = submitTx config params (funcName s) block (s\<lparr>nonce := getNonce (state s)\<rparr>)
       in nonce s' = getNonce (state s) \<and> gasPrice s' = gasPrice s \<and> state s' = state s
          \<and> txHash s' = Some tx
          \<and> tx_nonce tx = getNonce (state s) \<and> tx_gasPrice tx = gasPrice s
          \<and> effects s' = effects s @ [SendTransaction tx]))
   \<and> onTick config params block False s = s
   \<and> (gasPrice s < 3 * (gasPrice s div 2) \<longleftrightarrow> gasPrice s = 2 \<or> 4 \<le> gasPrice s)"
proof -
  have "gasPrice s < 3 * (gasPrice s div 2) \<longleftrightarrow> gasPrice s = 2 \<or> 4 \<le> gasPrice s"
    by presburger
  then show ?thesis
    by (simp add: onTick_def Let_def submit_def submitTx_def adjust_def NewTransaction_def
          adjustPrice_insufficient)
qed

theorem tick_behaviour_witness:
  "nonce submitterBehind \<noteq> getNonce (state submitterBehind)
   \<and> nonce (onTick config1 params1 block1 True submitterBehind) = 1
   \<and> gasPrice (onTick config1 params1 block1 True submitterBehind) = 1000
   \<and> effects (onTick config1 params1 block1 True submitterBehind) = [SendTransaction (submitNRB1 1 1000)]
   \<and> nonce (initSubmitter state1) = getNonce (state (initSubmitter state1))
   \<and> gasPrice (onTick config1 params1 block1 True (initSubmitter state1)) = 1500"
  using tick_behaviour [of submitterBehind config1 params1 block1]
    tick_behaviour [of "initSubmitter state1" config1 params1 block1]
  by (simp add: submitterBehind_def state1_def incNonce_def getNonce_def Let_def submitTx_def
        config1_def params1_def block1_def submitNRB1_def initSubmitter_def)

text \<open>
  Claim C1 as stated fails in its second part: on a tick that finds the nonce of the
  operator state advanced, the block is submitted again, with the new nonce.
\<close>

theorem tick_after_nonce_advance_counterexample:
  "nonce submitterBehind \<noteq> getNonce (state submitterBehind)
   \<and> sentTransactions (effects (onTick config1 params1 block1 True submitterBehind))
       = [submitNRB1 1 1000]"
  by (simp add: submitterBehind_def state1_def incNonce_def getNonce_def Let_def submitTx_def
        config1_def params1_def block1_def submitNRB1_def onTick_def submit_def)

text \<open>
  What the case for a BlockSubmitted event does: it stops the ticker, increments the
  nonce of the operator state, releases the lock and fetches the receipt of the last
  submission; with a receipt at hand it applies the sufficient adjustment.
\<close>

lemma onBlockSubmitted_steps:
  "effects (onBlockSubmitted r s)
     = effects s @ [TickerStop, LockRelease, TransactionReceipt (txHash s)]
   \<and> rs_nonce (state (onBlockSubmitted r s)) = rs_nonce (state s) + 1
   \<and> gasPrice (onBlockSubmitted (ReceiptStatus status) s) = 3 * (gasPrice s div 4)"
  by (cases r)
     (simp_all add: onBlockSubmitted_def Let_def adjust_def incNonce_def adjustPrice_sufficient)

text \<open>
  Claim C2 fails on the code. After a BlockSubmitted event the Submitter is still in the
  pending loop: a tick received after it submits the same block again, with the next
  nonce, and a block mined afterwards is never received. And when fetching the receipt
  fails, the handling ends before the sufficient adjustment: the gas price stays.
\<close>

theorem blockSubmitted_stays_in_pending_loop:
  "(\<exists>s. runSubmitter config1 params1 True state1
          [NewMinedBlockEvent block1 env1 [BlockSubmitted (ReceiptStatus 1), Tick True],
           NewMinedBlockEvent block2 env1 []] = AtPendingSelect s
        \<and> sentTransactions (effects s) = [submitNRB1 0 1000, submitNRB1 1 750])
   \<and> gasPrice (onBlockSubmitted ReceiptError s) = gasPrice s"
  by (simp add: runSubmitter_def initSubmitter_def onMinedBlock_def newPendingTicker_def
        onBlockSubmitted_def onTick_def submit_def submitTx_def adjust_def Let_def
        adjustPrice_sufficient config1_def params1_def state1_def block1_def env1_def
        getNonce_def incNonce_def submitNRB1_def)

section \<open>Properties of the handler of EpochPrepared\<close>

lemma uint_small:
  fixes x :: uint64
  assumes "unat x < 2 ^ 63"
  shows "uint x < 2 ^ 63"
proof -
  from assms have "int (unat x) < int (2 ^ 63)" by (rule of_nat_less_iff [THEN iffD2])
  then show ?thesis by (simp only: uint_nat of_nat_power of_nat_numeral)
qed

lemma to_int64_small:
  fixes x :: uint64
  assumes "unat x < 2 ^ 63"
  shows "to_int64 x = int (unat x)"
proof -
  have "uint x < 2 ^ 63" using assms by (rule uint_small)
  moreover have "- (2 ^ 63) \<le> uint x" by (simp add: order_trans [of _ 0])
  ultimately have "signed_take_bit 63 (uint x) = uint x"
    by (rule signed_take_bit_int_eq_self [rotated])
  then show ?thesis by (simp add: to_int64_def sint_uint)
qed

lemma unat_succ:
  fixes i :: uint64
  assumes "unat i < 2 ^ 63"
  shows "unat (i + 1) = Suc (unat i)"
proof -
  have "unat i + unat (1 :: uint64) < 2 ^ LENGTH(64)"
    using assms by simp
  then have "unat (i + 1) = unat i + unat (1 :: uint64)"
    by (rule unat_add_lem [THEN iffD1])
  then show ?thesis by simp
qed

lemma unat_big_Uint64:
  assumes "0 \<le> x" and "x < 2 ^ 64"
  shows "unat (big_Uint64 x) = nat x"
proof -
  have "nat x < 2 ^ 64" using assms by (simp add: nat_less_iff)
  then have "unat (of_nat (nat x) :: uint64) = nat x"
    by (simp add: unat_of_nat)
  with assms(1) show ?thesis by (simp add: big_Uint64_def del: of_nat_nat)
qed

lemma fetchRequests_returns:
  "unat e < 2 ^ 63
   \<Longrightarrow> spec_materialize rc params [unat i ..< Suc (unat e)] = Some txs
   \<Longrightarrow> fetchRequests rc params i e body = Some (Inr (body @ txs))"
proof (induction "Suc (unat e) - unat i" arbitrary: i body txs)
  case 0
  then have gt: "unat e < unat i" by simp
  then have "\<not> i \<le> e" by (simp add: word_le_nat_alt)
  moreover from gt 0 have "txs = []" by simp
  ultimately show ?case by (simp add: fetchRequests.simps)
next
  case (Suc m)
  then have le: "unat i \<le> unat e" by simp
  then have wle: "i \<le> e" by (simp add: word_le_nat_alt)
  from le Suc.prems(1) have small: "unat i < 2 ^ 63" by (rule le_less_trans)
  then have conv: "to_int64 i = int (unat i)" by (rule to_int64_small)
  have up: "[unat i ..< Suc (unat e)] = unat i # [Suc (unat i) ..< Suc (unat e)]"
    using le by (simp add: upt_conv_Cons del: upt_Suc)
  from small have next_i: "unat (i + 1) = Suc (unat i)" by (rule unat_succ)
  from Suc.prems(2) obtain request txs' where
      ero: "EROs rc (int (unat i)) = Inr request"
    and rest: "spec_materialize rc params [Suc (unat i) ..< Suc (unat e)] = Some txs'"
    and txs: "txs = requestTx rc params (int (unat i)) request # txs'"
    unfolding up by (auto split: sum.splits option.splits)
  have m: "m = Suc (unat e) - unat (i + 1)"
    using Suc.hyps(2) next_i by simp
  from rest have rest': "spec_materialize rc params [unat (i + 1) ..< Suc (unat e)] = Some txs'"
    by (simp only: next_i)
  have "fetchRequests rc params (i + 1) e (body @ [requestTx rc params (int (unat i)) request])
          = Some (Inr ((body @ [requestTx rc params (int (unat i)) request]) @ txs'))"
    using m Suc.prems(1) rest' by (rule Suc.hyps(1))
  then show ?case
    using wle ero conv txs by (subst fetchRequests.simps) simp
qed

lemma spec_batches_Suc:
  "spec_batches rc params first (Suc n)
     = spec_batch rc params first # spec_batches rc params (first + 1) n"
proof -
  have "[0 ..< Suc n] = 0 # map Suc [0 ..< n]"
    by (simp add: upt_conv_Cons map_Suc_upt del: upt_Suc)
  then show ?thesis
    by (simp add: spec_batches_def comp_def add.assoc del: upt_Suc)
qed

lemma fetchORBs_returns:
  assumes "\<forall>k<n. \<exists>orb batch. ORBs rc (requestBlockId + int k) = Inr orb
                      \<and> orbInRange limits orb
                      \<and> spec_batch rc params (requestBlockId + int k) = Some batch"
    and "n = nat (endBlockNumber + 1 - blockNumber)"
  shows "\<exists>batches. fetchORBs limits rc params blockNumber endBlockNumber requestBlockId bodies
                     = Some (Inr (bodies @ batches))
                 \<and> map Some batches = spec_batches rc params requestBlockId n"
  using assms
proof (induction n arbitrary: blockNumber requestBlockId bodies)
  case 0
  then have "\<not> blockNumber \<le> endBlockNumber" by simp
  then show ?case by (simp add: fetchORBs.simps spec_batches_def)
next
  case (Suc n)
  from Suc.prems(2) have le: "blockNumber \<le> endBlockNumber" by simp
  from Suc.prems(1) have "\<exists>orb batch. ORBs rc (requestBlockId + int 0) = Inr orb
                      \<and> orbInRange limits orb
                      \<and> spec_batch rc params (requestBlockId + int 0) = Some batch"
    by blast
  then obtain orb batch where orb: "ORBs rc requestBlockId = Inr orb"
    and inr: "orbInRange limits orb"
    and batch: "spec_batch rc params requestBlockId = Some batch"
    by auto
  from batch orb
  have "spec_materialize rc params [unat (RequestStart orb) ..< Suc (unat (RequestEnd orb))]
          = Some batch"
    by (simp add: spec_batch_def)
  with inr have body: "fetchRequests rc params (RequestStart orb) (RequestEnd orb) []
                         = Some (Inr batch)"
    using fetchRequests_returns [of "RequestEnd orb" rc params "RequestStart orb" batch "[]"]
    by (simp add: orbInRange_def)
  from inr have cap: "\<not> maxTransactions limits < unat (RequestEnd orb - RequestStart orb + 1)"
    by (simp add: orbInRange_def)
  have later: "\<forall>k<n. \<exists>orb batch. ORBs rc (requestBlockId + 1 + int k) = Inr orb
                      \<and> orbInRange limits orb
                      \<and> spec_batch rc params (requestBlockId + 1 + int k) = Some batch"
  proof (intro allI impI)
    fix k assume "k < n"
    then have "Suc k < Suc n" by simp
    with Suc.prems(1)
    have "\<exists>orb batch. ORBs rc (requestBlockId + int (Suc k)) = Inr orb
                      \<and> orbInRange limits orb
                      \<and> spec_batch rc params (requestBlockId + int (Suc k)) = Some batch"
      by blast
    then show "\<exists>orb batch. ORBs rc (requestBlockId + 1 + int k) = Inr orb
                      \<and> orbInRange limits orb
                      \<and> spec_batch rc params (requestBlockId + 1 + int k) = Some batch"
      by (simp add: ac_simps)
  qed
  from Suc.prems(2) have n: "n = nat (endBlockNumber + 1 - (blockNumber + 1))" by simp
  from Suc.IH [OF later n, of "bodies @ [batch]"] obtain batches
    where rest: "fetchORBs limits rc params (blockNumber + 1) endBlockNumber
                   (requestBlockId + 1) (bodies @ [batch])
                   = Some (Inr ((bodies @ [batch]) @ batches))"
      and spec: "map Some batches = spec_batches rc params (requestBlockId + 1) n"
    by blast
  have "fetchORBs limits rc params blockNumber endBlockNumber requestBlockId bodies
          = Some (Inr (bodies @ batch # batches))"
    using le orb cap body rest by (subst fetchORBs.simps) (simp add: Let_def)
  moreover have "map Some (batch # batches) = spec_batches rc params requestBlockId (Suc n)"
    using spec batch by (simp add: spec_batches_Suc)
  ultimately show ?case by blast
qed

lemma enqueuedBatches_append:
  "enqueuedBatches (xs @ ys) = enqueuedBatches xs @ enqueuedBatches ys"
  by (induction xs rule: enqueuedBatches.induct) simp_all

lemma enqueuedBatches_map:
  "enqueuedBatches (map EnqueueReqeustTxs bodies) = bodies"
  by (induction bodies) simp_all

lemma enqueueLoop_returns:
  assumes "m = numORBs - numMinedORBs" and "numMinedORBs \<le> numORBs"
    and "numORBs \<le> length bodies"
    and "\<forall>j<numORBs. Enq (bodies ! j) = None"
    and "m \<le> length events"
    and "\<forall>j<m. \<exists>block. events ! j = Some block \<and> IsRequest block"
  shows "enqueueLoop Enq numORBs bodies numMinedORBs events effs
           = (effs @ map EnqueueReqeustTxs (drop numMinedORBs (take numORBs bodies)), ReturnsNil)"
  using assms
proof (induction m arbitrary: numMinedORBs events effs)
  case 0
  then have "\<not> numMinedORBs < numORBs" by simp
  moreover from 0 have "drop numMinedORBs (take numORBs bodies) = []" by simp
  ultimately show ?case by (simp add: enqueueLoop.simps)
next
  case (Suc m)
  from Suc.prems(1) have lt: "numMinedORBs < numORBs" by simp
  with Suc.prems(3) have inb: "numMinedORBs < length bodies" by simp
  from lt Suc.prems(4) have acc: "Enq (bodies ! numMinedORBs) = None" by simp
  from Suc.prems(5) obtain ev events' where ev: "events = ev # events'"
    by (cases events) simp_all
  from Suc.prems(6) have "\<exists>block. events ! 0 = Some block \<and> IsRequest block" by blast
  with ev obtain block where block: "ev = Some block" and req: "IsRequest block" by auto
  have later: "\<forall>j<m. \<exists>block. events' ! j = Some block \<and> IsRequest block"
  proof (intro allI impI)
    fix j assume "j < m"
    then have "Suc j < Suc m" by simp
    with Suc.prems(6) have "\<exists>block. events ! Suc j = Some block \<and> IsRequest block" by blast
    with ev show "\<exists>block. events' ! j = Some block \<and> IsRequest block" by simp
  qed
  from Suc.prems(1) have m: "m = numORBs - (numMinedORBs + 1)" by simp
  from lt have le: "numMinedORBs + 1 \<le> numORBs" by simp
  from Suc.prems(5) ev have len: "m \<le> length events'" by simp
  have rest: "enqueueLoop Enq numORBs bodies (numMinedORBs + 1) events'
                (effs @ [EnqueueReqeustTxs (bodies ! numMinedORBs)])
              = ((effs @ [EnqueueReqeustTxs (bodies ! numMinedORBs)])
                   @ map EnqueueReqeustTxs (drop (numMinedORBs + 1) (take numORBs bodies)),
                 ReturnsNil)"
    using m le Suc.prems(3) Suc.prems(4) len later by (rule Suc.IH)
  have dr: "drop numMinedORBs (take numORBs bodies)
              = bodies ! numMinedORBs # drop (numMinedORBs + 1) (take numORBs bodies)"
    using lt inb Cons_nth_drop_Suc [of numMinedORBs "take numORBs bodies"] by simp
  show ?case
    using lt inb acc ev block req rest unfolding dr
    by (subst enqueueLoop.simps) simp
qed

lemma spec_sequence_Some: "spec_sequence (map Some batches) = Some (concat batches)"
  by (induction batches) simp_all

text \<open>
  With \<open>requestEnd\<close> at \<open>2^64 - 1\<close> and a contract that answers every \<open>EROs\<close> call, the
  loop over the request ids never ends.
\<close>

lemma fetchRequests_never_ends:
  assumes "\<forall>requestId. \<exists>request. EROs rc requestId = Inr request"
  shows "fetchRequests rc params requestId (- 1) body = None"
proof (cases "fetchRequests rc params requestId (- 1) body")
  case None
  then show ?thesis .
next
  case (Some y)
  let ?P = "\<lambda>(rc :: rootchainContract) (params :: Params) (i :: uint64) (e :: uint64)
              (b :: Transaction list) (y :: exit + Transaction list).
              e = - 1 \<longrightarrow> (\<forall>requestId. \<exists>request. EROs rc requestId = Inr request) \<longrightarrow> False"
  have step: "?P rc'' params'' i' e' b' y''"
    if ih: "\<And>rc params i e b y. f rc params i e b = Some y \<Longrightarrow> ?P rc params i e b y"
      and st: "(if i' \<le> e'
                  then case EROs rc'' (to_int64 i') of
                         Inl err \<Rightarrow> Some (Inl (ReturnsErr err))
                       | Inr request \<Rightarrow>
                           f rc'' params'' (i' + 1) e'
                             (b' @ [requestTx rc'' params'' (to_int64 i') request])
                  else Some (Inr b')) = Some y''"
    for f rc'' params'' i' e' b' y''
  proof (intro impI)
    assume e: "e' = - 1" and all: "\<forall>requestId. \<exists>request. EROs rc'' requestId = Inr request"
    from all obtain request where ero: "EROs rc'' (to_int64 i') = Inr request" by blast
    from e have "i' \<le> e'" by simp
    with st ero
    have "f rc'' params'' (i' + 1) e' (b' @ [requestTx rc'' params'' (to_int64 i') request])
            = Some y''"
      by simp
    from ih [OF this] e all show False by blast
  qed
  have "?P rc params requestId (- 1) body y"
    by (rule fetchRequests.raw_induct [where P = ?P, OF step Some])
  with assms show ?thesis by blast
qed

text \<open>
  Claim C8, as the code has it. Take a request epoch that is not empty, with the block
  range \<open>[start, end]\<close>, \<open>start \<le> end\<close>, of \<open>numORBs = end - start + 1\<close> blocks, fewer than
  \<open>2^64\<close> and no more than a slice can hold, and with the first request block id \<open>f\<close>
  below \<open>2^63\<close>. Suppose that \<open>getEpoch\<close> answers, that for each of the ids
  \<open>f, f + 1, ..., f + numORBs - 1\<close> the contract answers \<open>ORBs\<close> with a range whose
  \<open>requestEnd\<close> is below \<open>2^63\<close> and whose size a slice can hold and answers \<open>EROs\<close> for
  every request id of the range, that the pool accepts each of these batches, and that
  the next \<open>numORBs\<close> mined blocks are request blocks. Then the handler returns nil, it
  has enqueued \<open>numORBs\<close> batches, the batches enqueued are, in order, the batches of the
  request blocks \<open>f, f + 1, ...\<close>, each one the request transactions of its ORB in
  ascending request id, and the sequence of the request transactions enqueued is the
  concatenation of these batches.
\<close>

theorem orb_ordering:
  assumes "ep_IsRequest e" and "\<not> EpochIsEmpty e"
    and "StartBlockNumber e \<le> EndBlockNumber e"
    and "EndBlockNumber e - StartBlockNumber e + 1 < 2 ^ 64"
    and "nat (EndBlockNumber e - StartBlockNumber e + 1) \<le> maxBodies limits"
    and "GetEpoch rc (int (rs_currentFork (rcm_state rcm))) (EpochNumber e) = Inr epoch"
    and "unat (FirstRequestBlockId epoch) < 2 ^ 63"
    and "\<forall>k < nat (EndBlockNumber e - StartBlockNumber e + 1).
           \<exists>orb batch. ORBs rc (uint (FirstRequestBlockId epoch) + int k) = Inr orb
                     \<and> orbInRange limits orb
                     \<and> spec_batch rc params (uint (FirstRequestBlockId epoch) + int k) = Some batch
                     \<and> Enq batch = None"
    and "nat (EndBlockNumber e - StartBlockNumber e + 1) \<le> length events"
    and "\<forall>k < nat (EndBlockNumber e - StartBlockNumber e + 1).
           \<exists>block. events ! k = Some block \<and> IsRequest block"
  shows "\<exists>effs. handleEpochPrepared limits rc params Enq rcm e events = Some (effs, ReturnsNil)
           \<and> int (length (enqueuedBatches effs)) = EndBlockNumber e - StartBlockNumber e + 1
           \<and> map Some (enqueuedBatches effs)
               = spec_batches rc params (uint (FirstRequestBlockId epoch))
                   (nat (EndBlockNumber e - StartBlockNumber e + 1))
           \<and> Some (concat (enqueuedBatches effs))
               = spec_sequence (spec_batches rc params (uint (FirstRequestBlockId epoch))
                                  (nat (EndBlockNumber e - StartBlockNumber e + 1)))"
proof -
  let ?n = "EndBlockNumber e - StartBlockNumber e + 1"
  let ?first = "uint (FirstRequestBlockId epoch)"
  have conv: "to_int64 (FirstRequestBlockId epoch) = ?first"
    using assms(7) by (simp add: to_int64_small)
  from assms(3) have pos: "0 \<le> ?n" by simp
  then have un: "unat (big_Uint64 ?n) = nat ?n"
    using assms(4) by (rule unat_big_Uint64)
  have orbs: "\<forall>k < nat ?n. \<exists>orb batch. ORBs rc (?first + int k) = Inr orb
                     \<and> orbInRange limits orb
                     \<and> spec_batch rc params (?first + int k) = Some batch"
    using assms(8) by blast
  have nn: "nat ?n = nat (EndBlockNumber e + 1 - StartBlockNumber e)" by simp
  from fetchORBs_returns [OF orbs nn, of "[]"] obtain bodies
    where fo: "fetchORBs limits rc params (StartBlockNumber e) (EndBlockNumber e) ?first []
                 = Some (Inr bodies)"
      and spec: "map Some bodies = spec_batches rc params ?first (nat ?n)"
    by auto
  from spec have "length (map Some bodies) = length (spec_batches rc params ?first (nat ?n))"
    by simp
  then have len: "length bodies = nat ?n" by (simp add: spec_batches_def)
  have acc: "\<forall>j < nat ?n. Enq (bodies ! j) = None"
  proof (intro allI impI)
    fix j assume j: "j < nat ?n"
    with assms(8) obtain batch
      where b: "spec_batch rc params (?first + int j) = Some batch" and a: "Enq batch = None"
      by blast
    from j len have "map Some bodies ! j = Some (bodies ! j)" by simp
    moreover from j have "spec_batches rc params ?first (nat ?n) ! j
                            = spec_batch rc params (?first + int j)"
      by (simp add: spec_batches_def)
    ultimately have "Some (bodies ! j) = Some batch" using spec b by simp
    with a show "Enq (bodies ! j) = None" by simp
  qed
  have m: "nat ?n = nat ?n - 0" by simp
  have le0: "(0 :: nat) \<le> nat ?n" by simp
  from len have lb: "nat ?n \<le> length bodies" by simp
  have "enqueueLoop Enq (nat ?n) bodies 0 events [LockAcquire, MinerStart]
          = ([LockAcquire, MinerStart] @ map EnqueueReqeustTxs (drop 0 (take (nat ?n) bodies)),
             ReturnsNil)"
    using m le0 lb acc assms(9) assms(10) by (rule enqueueLoop_returns)
  with len have el: "enqueueLoop Enq (nat ?n) bodies 0 events [LockAcquire, MinerStart]
          = ([LockAcquire, MinerStart] @ map EnqueueReqeustTxs bodies, ReturnsNil)"
    by simp
  from assms(5) un have cap: "\<not> maxBodies limits < unat (big_Uint64 ?n)" by simp
  have h: "handleEpochPrepared limits rc params Enq rcm e events
             = Some (([LockAcquire, MinerStart] @ map EnqueueReqeustTxs bodies) @ [LockRelease],
                     ReturnsNil)"
    unfolding handleEpochPrepared_def Let_def
    using assms(1) assms(2) assms(6) cap
    by (simp only: conv fo un el if_True if_False simp_thms sum.case option.case prod.case
          exit.distinct)
  have eb: "enqueuedBatches (([LockAcquire, MinerStart] @ map EnqueueReqeustTxs bodies)
                               @ [LockRelease]) = bodies"
    by (simp add: enqueuedBatches_append enqueuedBatches_map)
  have l: "int (length bodies) = ?n" using len pos by simp
  have c: "Some (concat bodies) = spec_sequence (spec_batches rc params ?first (nat ?n))"
    using spec spec_sequence_Some [of bodies] by simp
  show ?thesis
  proof (intro exI conjI)
    show "handleEpochPrepared limits rc params Enq rcm e events
            = Some (([LockAcquire, MinerStart] @ map EnqueueReqeustTxs bodies) @ [LockRelease],
                    ReturnsNil)"
      by (rule h)
    show "int (length (enqueuedBatches (([LockAcquire, MinerStart] @ map EnqueueReqeustTxs bodies)
                                          @ [LockRelease]))) = ?n"
      unfolding eb by (rule l)
    show "map Some (enqueuedBatches (([LockAcquire, MinerStart] @ map EnqueueReqeustTxs bodies)
                                       @ [LockRelease]))
            = spec_batches rc params ?first (nat ?n)"
      unfolding eb by (rule spec)
    show "Some (concat (enqueuedBatches (([LockAcquire, MinerStart]
                                            @ map EnqueueReqeustTxs bodies) @ [LockRelease])))
            = spec_sequence (spec_batches rc params ?first (nat ?n))"
      unfolding eb by (rule c)
  qed
qed

theorem orb_ordering_witness:
  "ep_IsRequest epoch1 \<and> \<not> EpochIsEmpty epoch1
   \<and> StartBlockNumber epoch1 \<le> EndBlockNumber epoch1
   \<and> EndBlockNumber epoch1 - StartBlockNumber epoch1 + 1 < 2 ^ 64
   \<and> nat (EndBlockNumber epoch1 - StartBlockNumber epoch1 + 1) \<le> maxBodies limits1
   \<and> GetEpoch rootchain1 (int (rs_currentFork (rcm_state rcm1))) (EpochNumber epoch1)
       = Inr \<lparr>FirstRequestBlockId = 7\<rparr>
   \<and> unat (7 :: uint64) < 2 ^ 63
   \<and> ORBs rootchain1 7 = Inr \<lparr>RequestStart = 10, RequestEnd = 11\<rparr>
   \<and> orbInRange limits1 \<lparr>RequestStart = 10, RequestEnd = 11\<rparr>
   \<and> spec_batch rootchain1 params1 7 = Some [transferTx 10, exitTx11]
   \<and> acceptAll [transferTx 10, exitTx11] = None
   \<and> ORBs rootchain1 8 = Inr \<lparr>RequestStart = 12, RequestEnd = 12\<rparr>
   \<and> orbInRange limits1 \<lparr>RequestStart = 12, RequestEnd = 12\<rparr>
   \<and> spec_batch rootchain1 params1 8 = Some [transferTx 12]
   \<and> acceptAll [transferTx 12] = None
   \<and> IsRequest block5
   \<and> handleEpochPrepared limits1 rootchain1 params1 acceptAll rcm1 epoch1
         [Some block5, Some block5]
       = Some (effects1, ReturnsNil)
   \<and> int (length (enqueuedBatches effects1)) = 2
   \<and> enqueuedBatches effects1 = [[transferTx 10, exitTx11], [transferTx 12]]
   \<and> map Some (enqueuedBatches effects1) = spec_batches rootchain1 params1 7 2
   \<and> Some (concat (enqueuedBatches effects1))
       = spec_sequence (spec_batches rootchain1 params1 7 2)"
proof -
  have n: "nat (EndBlockNumber epoch1 - StartBlockNumber epoch1 + 1) = 2"
    by (simp add: epoch1_def)
  have a1: "ep_IsRequest epoch1" and a2: "\<not> EpochIsEmpty epoch1"
    and a3: "StartBlockNumber epoch1 \<le> EndBlockNumber epoch1"
    and a4: "EndBlockNumber epoch1 - StartBlockNumber epoch1 + 1 < 2 ^ 64"
    by (simp_all add: epoch1_def)
  have a5: "nat (EndBlockNumber epoch1 - StartBlockNumber epoch1 + 1) \<le> maxBodies limits1"
    unfolding n by (simp add: limits1_def)
  have a6: "GetEpoch rootchain1 (int (rs_currentFork (rcm_state rcm1))) (EpochNumber epoch1)
              = Inr \<lparr>FirstRequestBlockId = 7\<rparr>"
    by (simp add: rootchain1_def)
  have a7: "unat (FirstRequestBlockId \<lparr>FirstRequestBlockId = 7\<rparr>) < 2 ^ 63" by simp
  have o7: "ORBs rootchain1 7 = Inr \<lparr>RequestStart = 10, RequestEnd = 11\<rparr>"
    and o8: "ORBs rootchain1 8 = Inr \<lparr>RequestStart = 12, RequestEnd = 12\<rparr>"
    by (simp_all add: rootchain1_def)
  have r7: "orbInRange limits1 \<lparr>RequestStart = 10, RequestEnd = 11\<rparr>"
    and r8: "orbInRange limits1 \<lparr>RequestStart = 12, RequestEnd = 12\<rparr>"
    by (simp_all add: orbInRange_def limits1_def)
  have b7: "spec_batch rootchain1 params1 7 = Some [transferTx 10, exitTx11]"
    and b8: "spec_batch rootchain1 params1 8 = Some [transferTx 12]"
    by code_simp+
  have c7: "acceptAll [transferTx 10, exitTx11] = None"
    and c8: "acceptAll [transferTx 12] = None"
    by (simp_all add: acceptAll_def)
  have req: "IsRequest block5" by (simp add: block5_def)
  have k2: "k = 0 \<or> k = 1" if "k < 2" for k :: nat using that by arith
  have a8: "\<forall>k < nat (EndBlockNumber epoch1 - StartBlockNumber epoch1 + 1).
              \<exists>orb batch.
                ORBs rootchain1 (uint (FirstRequestBlockId \<lparr>FirstRequestBlockId = 7\<rparr>) + int k)
                  = Inr orb
                \<and> orbInRange limits1 orb
                \<and> spec_batch rootchain1 params1
                     (uint (FirstRequestBlockId \<lparr>FirstRequestBlockId = 7\<rparr>) + int k) = Some batch
                \<and> acceptAll batch = None"
    unfolding n
  proof (intro allI impI)
    fix k :: nat assume "k < 2"
    then have "k = 0 \<or> k = 1" by (rule k2)
    then show "\<exists>orb batch.
                ORBs rootchain1 (uint (FirstRequestBlockId \<lparr>FirstRequestBlockId = 7\<rparr>) + int k)
                  = Inr orb
                \<and> orbInRange limits1 orb
                \<and> spec_batch rootchain1 params1
                     (uint (FirstRequestBlockId \<lparr>FirstRequestBlockId = 7\<rparr>) + int k) = Some batch
                \<and> acceptAll batch = None"
    proof
      assume "k = 0"
      with o7 r7 b7 c7 show ?thesis by simp
    next
      assume "k = 1"
      with o8 r8 b8 c8 show ?thesis by simp
    qed
  qed
  have a9: "nat (EndBlockNumber epoch1 - StartBlockNumber epoch1 + 1)
              \<le> length [Some block5, Some block5]"
    unfolding n by simp
  have a10: "\<forall>k < nat (EndBlockNumber epoch1 - StartBlockNumber epoch1 + 1).
               \<exists>block. [Some block5, Some block5] ! k = Some block \<and> IsRequest block"
    unfolding n
  proof (intro allI impI)
    fix k :: nat assume "k < 2"
    then have "k = 0 \<or> k = 1" by (rule k2)
    with req show "\<exists>block. [Some block5, Some block5] ! k = Some block \<and> IsRequest block"
      by auto
  qed
  have h: "handleEpochPrepared limits1 rootchain1 params1 acceptAll rcm1 epoch1
             [Some block5, Some block5] = Some (effects1, ReturnsNil)"
    by code_simp
  have e: "enqueuedBatches effects1 = [[transferTx 10, exitTx11], [transferTx 12]]"
    by (simp add: effects1_def)
  from orb_ordering [OF a1 a2 a3 a4 a5 a6 a7 a8 a9 a10]
  have "int (length (enqueuedBatches effects1)) = 2
        \<and> map Some (enqueuedBatches effects1) = spec_batches rootchain1 params1 7 2
        \<and> Some (concat (enqueuedBatches effects1))
            = spec_sequence (spec_batches rootchain1 params1 7 2)"
    unfolding h n by (simp add: epoch1_def)
  with a1 a2 a3 a4 a5 a6 o7 o8 r7 r8 b7 b8 c7 c8 req h e show ?thesis by simp
qed

text \<open>
  Claim C8 as stated fails where the pool rejects a batch or a mined block is not a
  request block. For the epoch of the blocks 200 and 201 the concatenation of the ORB
  batches has three transactions; with a pool that rejects every batch the handler
  returns the error of the pool and nothing is enqueued, and with a first mined block that
  is not a request block it returns an error with the first batch of two enqueued only.
\<close>

theorem rejected_batch_counterexample:
  "ep_IsRequest epoch1 \<and> \<not> EpochIsEmpty epoch1
   \<and> spec_sequence (spec_batches rootchain1 params1 7 2)
       = Some [transferTx 10, exitTx11, transferTx 12]
   \<and> handleEpochPrepared limits1 rootchain1 params1 rejectAll rcm1 epoch1
         [Some block5, Some block5]
       = Some ([LockAcquire, MinerStart, LockRelease], ReturnsErr ''rejected'')
   \<and> concat (enqueuedBatches [LockAcquire, MinerStart, LockRelease]) = []
   \<and> handleEpochPrepared limits1 rootchain1 params1 acceptAll rcm1 epoch1
         [Some block1, Some block5]
       = Some ([LockAcquire, MinerStart, EnqueueReqeustTxs [transferTx 10, exitTx11],
                LockRelease],
               ReturnsErr ''Invalid request block type.'')
   \<and> concat (enqueuedBatches [LockAcquire, MinerStart,
                                EnqueueReqeustTxs [transferTx 10, exitTx11], LockRelease])
       = [transferTx 10, exitTx11]"
  by code_simp

section \<open>Scenarios of the specification\<close>

text \<open>
  A stalled submission: the BlockSubmitted event does not arrive within the pending
  interval and the nonce has not advanced, so the block is submitted once more with the
  gas price raised from 1000 to 1500; the event then increments the nonce and lowers the
  price to \<open>3 * (1500 div 4) = 1125\<close>.
\<close>

lemma scenario_stalled_submission:
  "\<exists>s. runSubmitter config1 params1 True state1
          [NewMinedBlockEvent block1 env1 [Tick True, BlockSubmitted (ReceiptStatus 1)]]
        = AtPendingSelect s
      \<and> sentTransactions (effects s) = [submitNRB1 0 1000, submitNRB1 0 1500]
      \<and> rs_nonce (state s) = 1 \<and> rs_gasPrice (state s) = 1125"
  by (simp add: runSubmitter_def initSubmitter_def onMinedBlock_def newPendingTicker_def
        onBlockSubmitted_def onTick_def submit_def submitTx_def adjust_def Let_def
        adjustPrice_sufficient adjustPrice_insufficient config1_def params1_def state1_def
        block1_def env1_def getNonce_def incNonce_def submitNRB1_def)

text \<open>
  Invalid-exit detection: for a mined request block with the receipts
  \<open>[ok, failed, ok, failed]\<close> the Detector records the invalid exits at the positions 1 and 3.
\<close>

lemma scenario_invalid_exit_detection:
  "onMinedBlockDetector merkleProof1 True (Inr 1) (Some block5)
     [receiptOk, receipt1, receiptOk, receipt1] rcm1 = Inr rcm2"
  by (simp add: onMinedBlockDetector_def Let_def rcm1_def rcm2_def block5_def big_Uint64_def
        receiptOk_def receipt1_def ReceiptStatusFailed_def exitAt_def merkleProof1_def)

text \<open>An empty epoch: the producer is not started and nothing is enqueued.\<close>

lemma scenario_empty_epoch:
  "handleEpochPrepared limits rc params Enq rcm (e\<lparr>EpochIsEmpty := True\<rparr>) events
     = Some ([LockAcquire, LockRelease], ReturnsNil)"
  by (simp add: handleEpochPrepared_def)

text \<open>
  An ORB that ends at the last request id: the contract answers every call, and the
  handler never ends.
\<close>

lemma scenario_request_loop_never_ends:
  "handleEpochPrepared limits1 rootchain2 params1 acceptAll rcm1 epoch1 events = None"
proof -
  have ero: "\<forall>requestId. \<exists>request. EROs rootchain2 requestId = Inr request"
    by (simp add: rootchain2_def rootchain1_def)
  have never: "fetchRequests rootchain2 params1 0 (- 1) [] = None"
    using ero by (rule fetchRequests_never_ends)
  have orb: "ORBs rootchain2 7 = Inr \<lparr>RequestStart = 0, RequestEnd = - 1\<rparr>"
    by (simp add: rootchain2_def)
  have "fetchORBs limits1 rootchain2 params1 200 201 7 [] = None"
    by (subst fetchORBs.simps) (simp add: orb never limits1_def)
  moreover have "to_int64 7 = 7" by (simp add: to_int64_def)
  ultimately show ?thesis
    by (simp add: handleEpochPrepared_def Let_def epoch1_def rootchain2_def rootchain1_def
          limits1_def big_Uint64_def)
qed

end
